theory Spec2Isabelle
  imports Complex_Main "HOL-Library.AList" "HOL-Library.Log_Nat"
begin

section \<open>Camtrap DP records and their CSV and table converters\<close>

text \<open>
  The package declares three dataclasses, \<open>Deployment\<close> (\<open>camtrapdp/deployments.py\<close>),
  \<open>Media\<close> (\<open>camtrapdp/media.py\<close>) and \<open>Observation\<close> (\<open>camtrapdp/observations.py\<close>),
  each with the same four static methods \<open>from_csv\<close>, \<open>to_csv\<close>, \<open>to_pandas\<close> and
  \<open>from_pandas\<close>. The methods are written reflectively (\<open>Deployment(**row)\<close>,
  \<open>asdict(m)\<close>, \<open>__dataclass_fields__.keys()\<close>), so an instance is modelled by its class
  and its attribute dictionary, and a class by the table of its declared fields.

  The methods are thin wrappers around Python's \<open>csv\<close> module, the \<open>dataclasses\<close>
  module, text-mode file objects and the pandas \<open>DataFrame\<close>; what those do (CPython
  3.11, POSIX, pandas 2) is part of the behaviour and is modelled below next to the
  methods themselves.
\<close>

subsection \<open>Python values\<close>

text \<open>The \<open>Enum\<close> classes nested in the three dataclasses, with their members
  (name and value). \<open>FeatureType\<close> is declared \<open>class FeatureType(str, Enum)\<close>, the
  others \<open>class ...(Enum)\<close>; \<open>Sex\<close> declares no member.\<close>

datatype enum_class =
  FeatureType | CaptureMethod | ObservationLevel | ObservationType
  | CameraSetupType | LifeStage | Sex | ClassificationMethod

fun enum_members :: "enum_class \<Rightarrow> (string \<times> string) list" where
  "enum_members FeatureType =
     [(''ROAD_PAVED'', ''roadPaved''), (''ROAD_DIRT'', ''roadDirt''),
      (''TRAIL_HIKING'', ''trailHiking''), (''TRAIL_GAME'', ''trailGame''),
      (''ROAD_UNDERPASS'', ''roadUnderpass''), (''ROAD_OVERPASS'', ''roadOverpass''),
      (''ROAD_BRIDGE'', ''roadBridge''), (''CULVERT'', ''culvert''),
      (''BURROW'', ''burrow''), (''NEST_SITE'', ''nestSite''),
      (''CARCASS'', ''carcass''), (''WATER_SOURCE'', ''waterSource''),
      (''FRUITING_TREE'', ''fruitingTree'')]"
| "enum_members CaptureMethod =
     [(''ACTIVITY_DETECTION'', ''activityDetection''), (''TIME_LAPSE'', ''timeLapse'')]"
| "enum_members ObservationLevel = [(''EVENT'', ''event''), (''MEDIA'', ''media'')]"
| "enum_members ObservationType =
     [(''ANIMAL'', ''animal''), (''HUMAN'', ''human''), (''VEHICLE'', ''vehicle''),
      (''BLANK'', ''blank''), (''UNKNOWN'', ''unknown''),
      (''UNCLASSIFIED'', ''unclassified'')]"
| "enum_members CameraSetupType = [(''SETUP'', ''setup''), (''CALIBRATION'', ''calibration'')]"
| "enum_members LifeStage =
     [(''ADULT'', ''adult''), (''SUBADULT'', ''subadult''), (''JUVENILE'', ''juvenile'')]"
| "enum_members Sex = []"
| "enum_members ClassificationMethod = [(''HUMAN'', ''human''), (''MACHINE'', ''machine'')]"

fun enum_class_name :: "enum_class \<Rightarrow> string" where
  "enum_class_name FeatureType = ''FeatureType''"
| "enum_class_name CaptureMethod = ''CaptureMethod''"
| "enum_class_name ObservationLevel = ''ObservationLevel''"
| "enum_class_name ObservationType = ''ObservationType''"
| "enum_class_name CameraSetupType = ''CameraSetupType''"
| "enum_class_name LifeStage = ''LifeStage''"
| "enum_class_name Sex = ''Sex''"
| "enum_class_name ClassificationMethod = ''ClassificationMethod''"

fun str_mixin :: "enum_class \<Rightarrow> bool" where
  "str_mixin FeatureType = True"
| "str_mixin _ = False"

text \<open>
  The values a field can hold. Python does not enforce a dataclass's annotations, so
  every field can hold every value. \<open>PEnum c n v\<close> is the member named \<open>n\<close>, of value
  \<open>v\<close>, of the class \<open>c\<close>. A finite float is the real number it denotes, \<open>PNaN\<close> is
  the float \<open>nan\<close>; infinities, and the \<open>dict\<close> that \<open>Media.exifData\<close> may hold, are
  left out.
\<close>

datatype pyval =
  PNone | PStr string | PBool bool | PInt int | PFloat real | PNaN
  | PEnum enum_class string string

text \<open>The exceptions. \<open>FormatError\<close> is the error kind the specification names; no
  class of that name exists in the package and nothing below raises it.\<close>

datatype pyerror =
  TypeError | ValueError | AttributeError | NotImplementedError | OverflowError | csv_Error
  | FormatError

subsection \<open>\<open>str()\<close>\<close>

definition digit_char :: "nat \<Rightarrow> char" where
  "digit_char d = char_of (48 + d)"

function str_nat :: "nat \<Rightarrow> string" where
  "str_nat n = (if n < 10 then [digit_char n] else str_nat (n div 10) @ [digit_char (n mod 10)])"
  by pat_completeness auto
termination
  by (relation "measure id") auto

declare str_nat.simps [simp del]

definition str_int :: "int \<Rightarrow> string" where
  "str_int i = (if i < 0 then ''-'' @ str_nat (nat (- i)) else str_nat (nat i))"

text \<open>
  \<open>str(v)\<close>. The shortest-digits \<open>repr\<close> of a finite float is not modelled: it is the
  parameter \<open>float_repr\<close>. A plain \<open>Enum\<close> member prints as \<open>Class.NAME\<close>. CPython
  refuses to convert an \<open>int\<close> of more than \<open>sys.int_info.default_max_str_digits\<close>
  decimal digits (4300, the sign not counted) and raises \<open>ValueError\<close>.
\<close>

definition max_str_digits :: nat where
  "max_str_digits = 4300"

fun py_str :: "(real \<Rightarrow> string) \<Rightarrow> pyval \<Rightarrow> pyerror + string" where
  "py_str float_repr PNone = Inr ''None''"
| "py_str float_repr (PStr s) = Inr s"
| "py_str float_repr (PBool b) = Inr (if b then ''True'' else ''False'')"
| "py_str float_repr (PInt i) =
     (if 10 ^ max_str_digits \<le> \<bar>i\<bar> then Inl ValueError else Inr (str_int i))"
| "py_str float_repr (PFloat x) = Inr (float_repr x)"
| "py_str float_repr PNaN = Inr ''nan''"
| "py_str float_repr (PEnum c n v) = Inr (enum_class_name c @ ''.'' @ n)"

subsection \<open>The schemas\<close>

datatype pytype =
  T_str | T_int | T_float | T_bool | T_dict | T_enum enum_class | Optional pytype

datatype kind = Deployment | Media | Observation

text \<open>The fields of \<open>camtrapdp/deployments.py\<close>, in declaration order.\<close>

definition Deployment_fields :: "(string \<times> pytype) list" where
  "Deployment_fields =
    [(''deploymentID'', T_str),
     (''locationID'', Optional T_str),
     (''locationName'', Optional T_str),
     (''latitude'', T_float),
     (''longitude'', T_float),
     (''coordinateUncertainty'', Optional T_float),
     (''deploymentStart'', T_str),
     (''deploymentEnd'', T_str),
     (''setupBy'', Optional T_str),
     (''cameraID'', Optional T_str),
     (''cameraModel'', Optional T_str),
     (''cameraDelay'', Optional T_int),
     (''cameraHeight'', Optional T_float),
     (''cameraDepth'', Optional T_float),
     (''cameraTilt'', Optional T_int),
     (''cameraHeading'', Optional T_int),
     (''detectionDistance'', Optional T_float),
     (''timestampIssues'', Optional T_bool),
     (''baitUse'', Optional T_bool),
     (''featureType'', Optional (T_enum FeatureType)),
     (''habitat'', Optional T_str),
     (''deploymentGroups'', Optional T_str),
     (''deploymentTags'', Optional T_str),
     (''deploymentComments'', Optional T_str)]"

text \<open>The fields of \<open>camtrapdp/media.py\<close>.\<close>

definition Media_fields :: "(string \<times> pytype) list" where
  "Media_fields =
    [(''mediaID'', T_str),
     (''deploymentID'', T_str),
     (''captureMethod'', Optional (T_enum CaptureMethod)),
     (''timestamp'', T_str),
     (''filePath'', T_str),
     (''filePublic'', T_bool),
     (''fileName'', Optional T_str),
     (''fileMediatype'', T_str),
     (''exifData'', Optional T_dict),
     (''favorite'', Optional T_bool),
     (''mediaComments'', Optional T_str)]"

text \<open>The fields of \<open>camtrapdp/observations.py\<close>.\<close>

definition Observation_fields :: "(string \<times> pytype) list" where
  "Observation_fields =
    [(''observationID'', T_str),
     (''deploymentID'', T_str),
     (''mediaID'', Optional T_str),
     (''eventID'', Optional T_str),
     (''eventStart'', T_str),
     (''eventEnd'', T_str),
     (''observationLevel'', T_enum ObservationLevel),
     (''observationType'', T_enum ObservationType),
     (''cameraSetupType'', Optional (T_enum CameraSetupType)),
     (''scientificName'', Optional T_str),
     (''count'', Optional T_int),
     (''lifeStage'', Optional (T_enum LifeStage)),
     (''sex'', Optional (T_enum Sex)),
     (''behavior'', Optional T_str),
     (''individualID'', Optional T_str),
     (''individualPositionRadius'', Optional T_float),
     (''individualPositionAngle'', Optional T_float),
     (''individualSpeed'', Optional T_float),
     (''bboxX'', Optional T_float),
     (''bboxY'', Optional T_float),
     (''bboxWidth'', Optional T_float),
     (''bboxHeight'', Optional T_float),
     (''classificationMethod'', Optional (T_enum ClassificationMethod)),
     (''classifiedBy'', Optional T_str),
     (''classificationTimestamp'', Optional T_str),
     (''classificationProbability'', Optional T_float),
     (''observationTags'', Optional T_str),
     (''observationComments'', Optional T_str)]"

fun dataclass_fields :: "kind \<Rightarrow> (string \<times> pytype) list" where
  "dataclass_fields Deployment = Deployment_fields"
| "dataclass_fields Media = Media_fields"
| "dataclass_fields Observation = Observation_fields"

text \<open>\<open>K.__dataclass_fields__.keys()\<close>: the field names in declaration order.\<close>

definition fieldnames :: "kind \<Rightarrow> string list" where
  "fieldnames k = map fst (dataclass_fields k)"

subsection \<open>Instances\<close>

text \<open>An instance of a dataclass: its class and its \<open>__dict__\<close>, the attributes in the
  order \<open>__init__\<close> assigned them.\<close>

record pyobj =
  cls :: kind
  attrs :: "(string \<times> pyval) list"

text \<open>Looking up each of the names \<open>fs\<close> in the dictionary \<open>d\<close>; \<open>None\<close> when one is
  missing.\<close>

fun bind_fields :: "(string \<times> pyval) list \<Rightarrow> string list \<Rightarrow> (string \<times> pyval) list option" where
  "bind_fields d [] = Some []"
| "bind_fields d (f # fs) =
     (case map_of d f of
        None \<Rightarrow> None
      | Some v \<Rightarrow> (case bind_fields d fs of None \<Rightarrow> None | Some a \<Rightarrow> Some ((f, v) # a)))"

text \<open>
  The generated \<open>__init__\<close>, called with keyword arguments only (\<open>Deployment(**row)\<close>).
  No field has a default, so every field is a required argument, the \<open>Optional[...]\<close>
  ones too. A keyword that is no field, or a field without a keyword, is a
  \<open>TypeError\<close>. The values are stored as they come: the annotations are not checked
  and nothing is converted.
\<close>

definition dataclass_init :: "kind \<Rightarrow> (string \<times> pyval) list \<Rightarrow> pyerror + pyobj" where
  "dataclass_init k kwargs =
     (if \<not> list_all (\<lambda>key. key \<in> set (fieldnames k)) (map fst kwargs) then Inl TypeError
      else case bind_fields kwargs (fieldnames k) of
             None \<Rightarrow> Inl TypeError
           | Some a \<Rightarrow> Inr \<lparr>cls = k, attrs = a\<rparr>)"

text \<open>\<open>dataclasses.asdict(obj)\<close>: the declared fields of the object's class, read from
  the object. The values of this model are copied unchanged.\<close>

definition asdict :: "pyobj \<Rightarrow> pyerror + (string \<times> pyval) list" where
  "asdict obj =
     (case bind_fields (attrs obj) (fieldnames (cls obj)) of
        None \<Rightarrow> Inl AttributeError
      | Some d \<Rightarrow> Inr d)"

subsection \<open>Text files\<close>

text \<open>
  Text is a \<open>string\<close>, one \<open>char\<close> for each character, and a file is modelled by the
  text it holds; the codec is not modelled (\<open>utf-8-sig\<close> on reading drops a leading
  byte-order mark, which is no character of the text).

  Both methods open the file without \<open>newline=''\<close>. On writing, \<open>\n\<close> is translated to
  \<open>os.linesep\<close>, which on POSIX is \<open>\n\<close> itself. On reading, universal newlines
  translate \<open>\r\n\<close> and a lone \<open>\r\<close> to \<open>\n\<close>.
\<close>

abbreviation CR :: char where "CR \<equiv> CHR 0x0D"
abbreviation LF :: char where "LF \<equiv> CHR 0x0A"
abbreviation QUOTE :: char where "QUOTE \<equiv> CHR 0x22"
abbreviation COMMA :: char where "COMMA \<equiv> CHR 0x2C"

definition file_write :: "string \<Rightarrow> string" where
  "file_write s = s"

fun universal_newlines :: "string \<Rightarrow> string" where
  "universal_newlines [] = []"
| "universal_newlines [c] = (if c = CR then [LF] else [c])"
| "universal_newlines (c # d # s) =
     (if c = CR \<and> d = LF then LF # universal_newlines s
      else if c = CR then LF # universal_newlines (d # s)
      else c # universal_newlines (d # s))"

text \<open>Iterating over a file object: the lines, each with its \<open>\n\<close>; the last one may
  lack it.\<close>

fun file_lines :: "string \<Rightarrow> string list" where
  "file_lines [] = []"
| "file_lines (c # s) =
     (if c = LF then [c] # file_lines s
      else case file_lines s of [] \<Rightarrow> [[c]] | l # ls \<Rightarrow> (c # l) # ls)"

definition file_read_lines :: "string \<Rightarrow> string list" where
  "file_read_lines content = file_lines (universal_newlines content)"

subsection \<open>\<open>csv.writer\<close>, dialect \<open>excel\<close>\<close>

text \<open>
  \<open>writerow\<close> of \<open>Modules/_csv.c\<close> with delimiter \<open>,\<close>, quotechar \<open>"\<close>, doublequote,
  no escapechar, lineterminator \<open>\r\n\<close> and \<open>QUOTE_MINIMAL\<close>. A \<open>str\<close> (a member of a
  \<open>str\<close>-derived \<open>Enum\<close> is one) is written as it is, \<open>None\<close> as the empty field, and
  anything else as its \<open>str()\<close>; an exception of \<open>str()\<close> ends \<open>writerow\<close>, and
  nothing of the row is written.
\<close>

fun csv_field :: "(real \<Rightarrow> string) \<Rightarrow> pyval \<Rightarrow> pyerror + string" where
  "csv_field float_repr PNone = Inr []"
| "csv_field float_repr (PStr s) = Inr s"
| "csv_field float_repr (PEnum c n v) =
     (if str_mixin c then Inr v else py_str float_repr (PEnum c n v))"
| "csv_field float_repr v = py_str float_repr v"

fun csv_fields :: "(real \<Rightarrow> string) \<Rightarrow> pyval list \<Rightarrow> pyerror + string list" where
  "csv_fields float_repr [] = Inr []"
| "csv_fields float_repr (v # vs) =
     (case csv_field float_repr v of
        Inl e \<Rightarrow> Inl e
      | Inr s \<Rightarrow> (case csv_fields float_repr vs of Inl e \<Rightarrow> Inl e | Inr ss \<Rightarrow> Inr (s # ss)))"

text \<open>The text of a field that is written.\<close>

definition csv_field_text :: "(real \<Rightarrow> string) \<Rightarrow> pyval \<Rightarrow> string" where
  "csv_field_text float_repr v = (case csv_field float_repr v of Inl e \<Rightarrow> [] | Inr s \<Rightarrow> s)"

text \<open>A field is quoted when it holds the delimiter, the quotechar or a character of
  the lineterminator; inside, a quotechar is doubled.\<close>

definition special :: "char \<Rightarrow> bool" where
  "special c = (c = COMMA \<or> c = QUOTE \<or> c = CR \<or> c = LF)"

fun double_quotes :: "string \<Rightarrow> string" where
  "double_quotes [] = []"
| "double_quotes (c # s) = (if c = QUOTE then QUOTE # QUOTE # double_quotes s else c # double_quotes s)"

definition join_append :: "string \<Rightarrow> string" where
  "join_append s = (if list_ex special s then QUOTE # double_quotes s @ [QUOTE] else s)"

fun join_fields :: "string list \<Rightarrow> string" where
  "join_fields [] = []"
| "join_fields [f] = f"
| "join_fields (f # g # fs) = f @ COMMA # join_fields (g # fs)"

text \<open>A record of one empty field is written as \<open>""\<close>.\<close>

definition writerow_text :: "string list \<Rightarrow> string" where
  "writerow_text texts =
     (let rec = join_fields (map join_append texts)
      in (if texts \<noteq> [] \<and> rec = [] then [QUOTE, QUOTE] else rec) @ [CR, LF])"

definition writerow :: "(real \<Rightarrow> string) \<Rightarrow> pyval list \<Rightarrow> pyerror + string" where
  "writerow float_repr row =
     (case csv_fields float_repr row of
        Inl e \<Rightarrow> Inl e
      | Inr texts \<Rightarrow> Inr (writerow_text texts))"

subsection \<open>\<open>csv.reader\<close>, dialect \<open>excel\<close>\<close>

text \<open>
  The parser of \<open>Modules/_csv.c\<close>. The states that only an escapechar reaches are
  left out, the dialect having none. \<open>parse_process_char\<close> gets a character of the
  line, or \<open>None\<close> for the end-of-line marker \<open>EOL\<close> that \<open>Reader_iternext\<close> feeds
  after each line.
\<close>

datatype ParserState =
  START_RECORD | START_FIELD | IN_FIELD | IN_QUOTED_FIELD | QUOTE_IN_QUOTED_FIELD | EAT_CRNL

record Reader =
  state :: ParserState
  field :: string
  rfields :: "string list"

definition field_limit :: nat where
  "field_limit = 131072"

definition parse_reset :: Reader where
  "parse_reset = \<lparr>state = START_RECORD, field = [], rfields = []\<rparr>"

definition parse_save_field :: "Reader \<Rightarrow> Reader" where
  "parse_save_field r = r\<lparr>rfields := rfields r @ [field r], field := []\<rparr>"

definition parse_add_char :: "Reader \<Rightarrow> char \<Rightarrow> pyerror + Reader" where
  "parse_add_char r c =
     (if length (field r) \<ge> field_limit then Inl csv_Error
      else Inr (r\<lparr>field := field r @ [c]\<rparr>))"

definition set_state :: "ParserState \<Rightarrow> pyerror + Reader \<Rightarrow> pyerror + Reader" where
  "set_state s x = (case x of Inl e \<Rightarrow> Inl e | Inr r \<Rightarrow> Inr (r\<lparr>state := s\<rparr>))"

definition is_newline :: "char option \<Rightarrow> bool" where
  "is_newline c = (c = Some LF \<or> c = Some CR)"

text \<open>The case \<open>START_FIELD\<close>, which \<open>START_RECORD\<close> falls through to.\<close>

definition start_field :: "Reader \<Rightarrow> char option \<Rightarrow> pyerror + Reader" where
  "start_field r c =
     (case c of
        None \<Rightarrow> Inr ((parse_save_field r)\<lparr>state := START_RECORD\<rparr>)
      | Some ch \<Rightarrow>
          if is_newline c then Inr ((parse_save_field r)\<lparr>state := EAT_CRNL\<rparr>)
          else if ch = QUOTE then Inr (r\<lparr>state := IN_QUOTED_FIELD\<rparr>)
          else if ch = COMMA then Inr ((parse_save_field r)\<lparr>state := START_FIELD\<rparr>)
          else set_state IN_FIELD (parse_add_char r ch))"

definition parse_process_char :: "Reader \<Rightarrow> char option \<Rightarrow> pyerror + Reader" where
  "parse_process_char r c =
     (case state r of
        START_RECORD \<Rightarrow>
          (if c = None then Inr r
           else if is_newline c then Inr (r\<lparr>state := EAT_CRNL\<rparr>)
           else start_field (r\<lparr>state := START_FIELD\<rparr>) c)
      | START_FIELD \<Rightarrow> start_field r c
      | IN_FIELD \<Rightarrow>
          (case c of
             None \<Rightarrow> Inr ((parse_save_field r)\<lparr>state := START_RECORD\<rparr>)
           | Some ch \<Rightarrow>
               if is_newline c then Inr ((parse_save_field r)\<lparr>state := EAT_CRNL\<rparr>)
               else if ch = COMMA then Inr ((parse_save_field r)\<lparr>state := START_FIELD\<rparr>)
               else parse_add_char r ch)
      | IN_QUOTED_FIELD \<Rightarrow>
          (case c of
             None \<Rightarrow> Inr r
           | Some ch \<Rightarrow>
               if ch = QUOTE then Inr (r\<lparr>state := QUOTE_IN_QUOTED_FIELD\<rparr>)
               else parse_add_char r ch)
      | QUOTE_IN_QUOTED_FIELD \<Rightarrow>
          (case c of
             None \<Rightarrow> Inr ((parse_save_field r)\<lparr>state := START_RECORD\<rparr>)
           | Some ch \<Rightarrow>
               if ch = QUOTE then set_state IN_QUOTED_FIELD (parse_add_char r ch)
               else if ch = COMMA then Inr ((parse_save_field r)\<lparr>state := START_FIELD\<rparr>)
               else if is_newline c then Inr ((parse_save_field r)\<lparr>state := EAT_CRNL\<rparr>)
               else set_state IN_FIELD (parse_add_char r ch))
      | EAT_CRNL \<Rightarrow>
          (if is_newline c then Inr r
           else if c = None then Inr (r\<lparr>state := START_RECORD\<rparr>)
           else Inl csv_Error))"

fun process_chars :: "Reader \<Rightarrow> string \<Rightarrow> pyerror + Reader" where
  "process_chars r [] = Inr r"
| "process_chars r (c # s) =
     (case parse_process_char r (Some c) of
        Inl e \<Rightarrow> Inl e
      | Inr r' \<Rightarrow> process_chars r' s)"

definition process_line :: "Reader \<Rightarrow> string \<Rightarrow> pyerror + Reader" where
  "process_line r l =
     (case process_chars r l of
        Inl e \<Rightarrow> Inl e
      | Inr r' \<Rightarrow> parse_process_char r' None)"

text \<open>
  \<open>Reader_iternext\<close>, from the state \<open>r\<close> on the lines still to read: lines are
  consumed until the parser is back in \<open>START_RECORD\<close>. The result is the row and
  the lines left, or \<open>None\<close> at the end of the input. Input that ends inside a quoted
  field gives the row read so far (the dialect is not strict).
\<close>

fun Reader_iternext :: "Reader \<Rightarrow> string list \<Rightarrow> pyerror + (string list \<times> string list) option" where
  "Reader_iternext r [] =
     (if field r \<noteq> [] \<or> state r = IN_QUOTED_FIELD
      then Inr (Some (rfields (parse_save_field r), []))
      else Inr None)"
| "Reader_iternext r (l # ls) =
     (case process_line r l of
        Inl e \<Rightarrow> Inl e
      | Inr r' \<Rightarrow>
          if state r' = START_RECORD then Inr (Some (rfields r', ls))
          else Reader_iternext r' ls)"

text \<open>\<open>next(reader)\<close>: the parser is reset before each record.\<close>

definition reader_next :: "string list \<Rightarrow> pyerror + (string list \<times> string list) option" where
  "reader_next ls = Reader_iternext parse_reset ls"

lemma Reader_iternext_length:
  "Reader_iternext r ls = Inr (Some (row, rest)) \<Longrightarrow> length rest \<le> length ls"
proof (induction ls arbitrary: r)
  case Nil
  then show ?case by (simp split: if_splits)
next
  case (Cons l ls)
  show ?case
  proof (cases "process_line r l")
    case (Inl e)
    with Cons.prems show ?thesis by simp
  next
    case (Inr r')
    show ?thesis
    proof (cases "state r' = START_RECORD")
      case True
      with Cons.prems Inr show ?thesis by simp
    next
      case False
      with Cons.prems Inr have "Reader_iternext r' ls = Inr (Some (row, rest))" by simp
      then have "length rest \<le> length ls" by (rule Cons.IH)
      then show ?thesis by simp
    qed
  qed
qed

lemma reader_next_shorter:
  "reader_next ls = Inr (Some (row, rest)) \<Longrightarrow> length rest < length ls"
  by (cases ls)
    (auto simp: reader_next_def parse_reset_def split: sum.splits if_splits
          dest: Reader_iternext_length)

subsection \<open>\<open>csv.DictReader\<close>\<close>

text \<open>A Python \<open>dict\<close> keeps its keys in insertion order and a later assignment to a
  key replaces the value in place: an association list under \<open>AList.update\<close>.
  \<open>dict(zip(keys, values))\<close>:\<close>

definition dict_zip :: "string list \<Rightarrow> pyval list \<Rightarrow> (string \<times> pyval) list" where
  "dict_zip ks vs = foldl (\<lambda>d (k, v). AList.update k v d) [] (zip ks vs)"

text \<open>
  The dictionary \<open>DictReader.__next__\<close> builds from a row: the cells as \<open>str\<close> under the
  field names, position by position. The cells of a longer row go, as a list, under
  the key \<open>restkey = None\<close> (the component \<open>rest\<close>); the names a shorter row leaves
  are set to \<open>restval = None\<close>.
\<close>

record rowdict =
  entries :: "(string \<times> pyval) list"
  rest :: "string list option"

definition DictReader_dict :: "string list \<Rightarrow> string list \<Rightarrow> rowdict" where
  "DictReader_dict names row =
     (let d = dict_zip names (map PStr row); lf = length names; lr = length row
      in if lf < lr then \<lparr>entries = d, rest = Some (drop lf row)\<rparr>
         else if lf > lr
         then \<lparr>entries = foldl (\<lambda>d key. AList.update key PNone d) d (drop lr names),
               rest = None\<rparr>
         else \<lparr>entries = d, rest = None\<rparr>)"

text \<open>\<open>DictReader.__next__\<close> skips the rows that are \<open>[]\<close> (blank lines).\<close>

function DictReader_next :: "string list \<Rightarrow> pyerror + (string list \<times> string list) option" where
  "DictReader_next ls =
     (case reader_next ls of
        Inl e \<Rightarrow> Inl e
      | Inr None \<Rightarrow> Inr None
      | Inr (Some (row, ls')) \<Rightarrow> if row = [] then DictReader_next ls' else Inr (Some (row, ls')))"
  by pat_completeness auto
termination
  by (relation "measure length") (auto dest: reader_next_shorter)

declare DictReader_next.simps [simp del]

lemma DictReader_next_shorter:
  "DictReader_next ls = Inr (Some (row, ls')) \<Longrightarrow> length ls' < length ls"
proof (induction ls rule: DictReader_next.induct)
  case (1 ls)
  show ?case
  proof (cases "reader_next ls")
    case (Inl e)
    with "1.prems" show ?thesis by (simp add: DictReader_next.simps [of ls])
  next
    case (Inr x)
    show ?thesis
    proof (cases x)
      case None
      with Inr "1.prems" show ?thesis by (simp add: DictReader_next.simps [of ls])
    next
      case (Some p)
      obtain row0 ls0 where p: "p = (row0, ls0)" by (cases p)
      have shorter: "length ls0 < length ls"
        using Inr Some p by (auto dest: reader_next_shorter)
      show ?thesis
      proof (cases "row0 = []")
        case True
        have "DictReader_next ls0 = Inr (Some (row, ls'))"
          using "1.prems" Inr Some p True by (simp add: DictReader_next.simps [of ls])
        then have "length ls' < length ls0"
          using "1.IH" Inr Some p True by simp
        with shorter show ?thesis by simp
      next
        case False
        then have "ls' = ls0"
          using "1.prems" Inr Some p by (simp add: DictReader_next.simps [of ls])
        with shorter show ?thesis by simp
      qed
    qed
  qed
qed

subsection \<open>\<open>from_csv\<close>\<close>

text \<open>\<open>K(**row)\<close> on a dictionary of the \<open>DictReader\<close>: the key \<open>None\<close> of a long row
  is no keyword (\<open>TypeError: keywords must be strings\<close>).\<close>

definition init_from_row :: "kind \<Rightarrow> rowdict \<Rightarrow> pyerror + pyobj" where
  "init_from_row k d = (if rest d \<noteq> None then Inl TypeError else dataclass_init k (entries d))"

text \<open>The comprehension \<open>[K(**row) for row in reader]\<close>, with the header \<open>names\<close>
  already read: rows are parsed one at a time, and the first exception ends it.\<close>

function read_objects :: "kind \<Rightarrow> string list \<Rightarrow> string list \<Rightarrow> pyerror + pyobj list" where
  "read_objects k names ls =
     (case DictReader_next ls of
        Inl e \<Rightarrow> Inl e
      | Inr None \<Rightarrow> Inr []
      | Inr (Some (row, ls')) \<Rightarrow>
          (case init_from_row k (DictReader_dict names row) of
             Inl e \<Rightarrow> Inl e
           | Inr obj \<Rightarrow>
               (case read_objects k names ls' of
                  Inl e \<Rightarrow> Inl e
                | Inr objs \<Rightarrow> Inr (obj # objs))))"
  by pat_completeness auto
termination
  by (relation "measure (\<lambda>(k, names, ls). length ls)") (auto dest: DictReader_next_shorter)

declare read_objects.simps [simp del]

text \<open>
  \<open>from_csv\<close> of the three classes, on the text of the file at \<open>file_path\<close>:
  \<^verbatim>\<open>
  with open(file_path, "r", encoding="utf-8-sig") as file:
      reader = DictReader(file)
      return [K(**row) for row in reader]
  \<close>
  The first row is the header (\<open>DictReader.fieldnames\<close>); a file without any row gives
  the empty list.
\<close>

definition from_csv :: "kind \<Rightarrow> string \<Rightarrow> pyerror + pyobj list" where
  "from_csv k content =
     (case reader_next (file_read_lines content) of
        Inl e \<Rightarrow> Inl e
      | Inr None \<Rightarrow> Inr []
      | Inr (Some (names, ls)) \<Rightarrow> read_objects k names ls)"

subsection \<open>\<open>csv.DictWriter\<close> and \<open>to_csv\<close>\<close>

text \<open>\<open>DictWriter._dict_to_list\<close> with \<open>extrasaction = "raise"\<close> and \<open>restval = ""\<close>.\<close>

definition dict_to_list :: "string list \<Rightarrow> (string \<times> pyval) list \<Rightarrow> pyerror + pyval list" where
  "dict_to_list names rowdict =
     (if \<not> list_all (\<lambda>key. key \<in> set names) (map fst rowdict) then Inl ValueError
      else Inr (map (\<lambda>key. case map_of rowdict key of None \<Rightarrow> PStr [] | Some v \<Rightarrow> v) names))"

definition writeheader :: "(real \<Rightarrow> string) \<Rightarrow> string list \<Rightarrow> pyerror + string" where
  "writeheader float_repr names =
     (case dict_to_list names (dict_zip names (map PStr names)) of
        Inl e \<Rightarrow> Inl e
      | Inr row \<Rightarrow> writerow float_repr row)"

fun writerows :: "(real \<Rightarrow> string) \<Rightarrow> string list \<Rightarrow> (string \<times> pyval) list list \<Rightarrow> pyerror + string" where
  "writerows float_repr names [] = Inr []"
| "writerows float_repr names (d # ds) =
     (case dict_to_list names d of
        Inl e \<Rightarrow> Inl e
      | Inr row \<Rightarrow>
          (case writerow float_repr row of
             Inl e \<Rightarrow> Inl e
           | Inr line \<Rightarrow>
               (case writerows float_repr names ds of
                  Inl e \<Rightarrow> Inl e
                | Inr s \<Rightarrow> Inr (line @ s))))"

text \<open>\<open>[asdict(m) for m in objs]\<close>\<close>

fun asdict_all :: "pyobj list \<Rightarrow> pyerror + (string \<times> pyval) list list" where
  "asdict_all [] = Inr []"
| "asdict_all (obj # objs) =
     (case asdict obj of
        Inl e \<Rightarrow> Inl e
      | Inr d \<Rightarrow> (case asdict_all objs of Inl e \<Rightarrow> Inl e | Inr ds \<Rightarrow> Inr (d # ds)))"

text \<open>
  \<open>to_csv\<close> of the three classes; the result is the text the file holds afterwards.
  \<^verbatim>\<open>
  with open(file_path, "w") as file:
      writer = DictWriter(file, fieldnames=K.__dataclass_fields__.keys())
      writer.writeheader()
      writer.writerows([asdict(m) for m in objs])
  \<close>
\<close>

definition to_csv :: "(real \<Rightarrow> string) \<Rightarrow> kind \<Rightarrow> pyobj list \<Rightarrow> pyerror + string" where
  "to_csv float_repr k objs =
     (case writeheader float_repr (fieldnames k) of
        Inl e \<Rightarrow> Inl e
      | Inr header \<Rightarrow>
          (case asdict_all objs of
             Inl e \<Rightarrow> Inl e
           | Inr ds \<Rightarrow>
               (case writerows float_repr (fieldnames k) ds of
                  Inl e \<Rightarrow> Inl e
                | Inr body \<Rightarrow> Inr (file_write (header @ body)))))"

subsection \<open>Well-formed instances and well-formed files\<close>

text \<open>An object that \<open>K.__init__\<close> made: of class \<open>K\<close>, with exactly the declared
  fields as attributes, in declaration order.\<close>

definition is_instance :: "kind \<Rightarrow> pyobj \<Rightarrow> bool" where
  "is_instance k obj = (cls obj = k \<and> map fst (attrs obj) = fieldnames k)"

text \<open>A value that \<open>str()\<close> converts: every value but an \<open>int\<close> of more than 4300
  digits.\<close>

fun writable :: "pyval \<Rightarrow> bool" where
  "writable (PInt i) = (\<bar>i\<bar> < 10 ^ max_str_digits)"
| "writable v = True"

text \<open>\<open>list(csv.reader(file))\<close>: all the rows of a file, the header first. The rows of
  a text are what this gives for its lines.\<close>

function csv_rows :: "string list \<Rightarrow> pyerror + string list list" where
  "csv_rows ls =
     (case reader_next ls of
        Inl e \<Rightarrow> Inl e
      | Inr None \<Rightarrow> Inr []
      | Inr (Some (row, ls')) \<Rightarrow>
          (case csv_rows ls' of Inl e \<Rightarrow> Inl e | Inr rows \<Rightarrow> Inr (row # rows)))"
  by pat_completeness auto
termination
  by (relation "measure length") (auto dest: reader_next_shorter)

declare csv_rows.simps [simp del]

text \<open>The comprehension of \<open>from_csv\<close> on rows already parsed: blank rows are
  skipped and the first exception ends it.\<close>

fun init_rows :: "kind \<Rightarrow> string list \<Rightarrow> string list list \<Rightarrow> pyerror + pyobj list" where
  "init_rows k names [] = Inr []"
| "init_rows k names (row # rows) =
     (if row = [] then init_rows k names rows
      else case init_from_row k (DictReader_dict names row) of
             Inl e \<Rightarrow> Inl e
           | Inr obj \<Rightarrow>
               (case init_rows k names rows of
                  Inl e \<Rightarrow> Inl e
                | Inr objs \<Rightarrow> Inr (obj # objs)))"

subsection \<open>The coercion the specification describes\<close>

text \<open>
  The specification (section 4.2) has the text of a field coerced to the field's
  declared type: a numeric field parsed as a decimal or an integer, a boolean field
  one of \<open>True\<close>, \<open>False\<close>, \<open>true\<close>, \<open>false\<close>, an enumeration field a declared value,
  an optional field possibly empty. No function of the package does this;
  \<open>spec_coercible\<close> states those words, so that they can be compared with
  \<open>from_csv\<close>.
\<close>

definition is_digit :: "char \<Rightarrow> bool" where
  "is_digit c = (c \<in> set ''0123456789'')"

definition digits_text :: "string \<Rightarrow> bool" where
  "digits_text s = (s \<noteq> [] \<and> list_all is_digit s)"

definition unsigned :: "string \<Rightarrow> string" where
  "unsigned s = (case s of [] \<Rightarrow> [] | c # t \<Rightarrow> if c = CHR ''-'' \<or> c = CHR ''+'' then t else s)"

definition integer_text :: "string \<Rightarrow> bool" where
  "integer_text s = digits_text (unsigned s)"

definition decimal_text :: "string \<Rightarrow> bool" where
  "decimal_text s =
     (let whole = takeWhile is_digit (unsigned s); frac = dropWhile is_digit (unsigned s)
      in whole \<noteq> [] \<and> (frac = [] \<or> (hd frac = CHR ''.'' \<and> digits_text (tl frac))))"

fun spec_coercible :: "pytype \<Rightarrow> string \<Rightarrow> bool" where
  "spec_coercible T_str s = True"
| "spec_coercible T_int s = integer_text s"
| "spec_coercible T_float s = decimal_text s"
| "spec_coercible T_bool s = (s \<in> set [''True'', ''False'', ''true'', ''false''])"
| "spec_coercible T_dict s = True"
| "spec_coercible (T_enum c) s = (s \<in> set (map snd (enum_members c)))"
| "spec_coercible (Optional t) s = (s = [] \<or> spec_coercible t s)"

subsection \<open>The \<open>Deployment\<close> of the package root\<close>

text \<open>\<open>__init__.py\<close> declares a dataclass \<open>Deployment\<close> of its own, with these
  fields.\<close>

definition Root_Deployment_fields :: "(string \<times> pytype) list" where
  "Root_Deployment_fields =
    [(''deploymentID'', T_str),
     (''locationID'', Optional T_str),
     (''locationName'', Optional T_str),
     (''latitude'', T_float),
     (''longitude'', T_float),
     (''coordinateUncertainty'', Optional T_float),
     (''deploymentStart'', T_str),
     (''deploymentEnd'', T_str),
     (''setupBy'', Optional T_str),
     (''cameraID'', Optional T_str),
     (''cameraModel'', Optional T_str),
     (''cameraDelay'', Optional T_int),
     (''cameraHeight'', Optional T_float),
     (''cameraDepth'', Optional T_float),
     (''cameraTilt'', Optional T_int),
     (''cameraHeading'', Optional T_int),
     (''detectionDistance'', Optional T_float),
     (''timestampIssues'', Optional T_bool),
     (''baitUse'', Optional T_bool),
     (''featureType'', Optional (T_enum FeatureType)),
     (''habitatType'', Optional T_str),
     (''deploymentGroups'', Optional T_str),
     (''deploymentTags'', Optional T_str),
     (''deploymentComments'', Optional T_str)]"

text \<open>
  Its two methods:
  \<^verbatim>\<open>
  def from_csv():
      raise NotImplementedError

  def to_csv():
      raise NotImplementedError
  \<close>
  They declare no parameter, not even \<open>self\<close>, and are not static methods. A call
  binds its arguments before the body runs, and binding a positional or a keyword
  argument to a function without parameters raises \<open>TypeError\<close>. \<open>args\<close> and
  \<open>kwargs\<close> are the positional and the keyword arguments the function receives; for a
  call through an instance, \<open>d.from_csv(...)\<close>, the instance \<open>d\<close> is the first
  positional argument.
\<close>

datatype argument =
  Value pyval | Instance "(string \<times> pyval) list" | Instances "pyobj list"

definition Root_Deployment_from_csv ::
  "argument list \<Rightarrow> (string \<times> argument) list \<Rightarrow> pyerror + pyobj list" where
  "Root_Deployment_from_csv args kwargs =
     (if args = [] \<and> kwargs = [] then Inl NotImplementedError else Inl TypeError)"

definition Root_Deployment_to_csv ::
  "argument list \<Rightarrow> (string \<times> argument) list \<Rightarrow> pyerror + string" where
  "Root_Deployment_to_csv args kwargs =
     (if args = [] \<and> kwargs = [] then Inl NotImplementedError else Inl TypeError)"

subsection \<open>The pandas \<open>DataFrame\<close>\<close>

text \<open>
  A frame is its column labels, one typed array for each column, and the number of
  its rows (the index is the default \<open>RangeIndex\<close>). Of the column types, the five
  are modelled that the values of this model are given (pandas 2, without the
  \<open>future.infer_string\<close> option). NumPy scalars are identified with the Python values
  they equal.
\<close>

datatype dtype = int64 | uint64 | float64 | bool_dtype | object_dtype

record DataFrame =
  columns :: "string list"
  arrays :: "(dtype \<times> pyval list) list"
  nrows :: nat

text \<open>Conversion of an \<open>int\<close> to a C double (53 bits of mantissa, round to nearest,
  ties to even); it raises \<open>OverflowError\<close> for an \<open>int\<close> that rounds to \<open>2 ** 1024\<close>
  or beyond.\<close>

definition float_of_int :: "int \<Rightarrow> real" where
  "float_of_int i =
     (let a = nat \<bar>i\<bar>; e = floorlog 2 a - 53; q = a div 2 ^ e; r = a mod 2 ^ e;
          q' = (if 2 * r > 2 ^ e \<or> (2 * r = 2 ^ e \<and> odd q) then q + 1 else q)
      in real_of_int (sgn i) * real (q' * 2 ^ e))"

definition double_overflow :: "int \<Rightarrow> bool" where
  "double_overflow i = (2 ^ 1024 \<le> \<bar>float_of_int i\<bar>)"

fun as_float :: "pyval \<Rightarrow> pyval" where
  "as_float PNone = PNaN"
| "as_float (PInt i) = PFloat (float_of_int i)"
| "as_float v = v"

text \<open>
  The type pandas infers for a column built from Python objects, and the values the
  column then holds: \<open>lib.maybe_convert_objects\<close>, a loop over the values that records
  in the flags of \<open>Seen\<close> what it has met.
  \<^item> \<open>None\<close> and \<open>nan\<close> are missing values; a \<open>bool\<close> and a \<open>float\<close> set their flag.
  \<^item> An \<open>int\<close> is first converted to a double, which may raise \<open>OverflowError\<close>. Unless
    a \<open>None\<close> came before it, its range is looked at: below zero (\<open>sint\<close>), above the
    \<open>int64\<close> range (\<open>uint\<close>); outside \<open>int64\<close> and \<open>uint64\<close>, or with both flags set,
    the column is an \<open>object\<close> column and the loop ends.
  \<^item> A \<open>str\<close> or any other object (an \<open>Enum\<close> member) makes the column an \<open>object\<close>
    column and ends the loop.
\<close>

record Seen =
  seen_null :: bool
  seen_nan :: bool
  seen_bool :: bool
  seen_float :: bool
  seen_int :: bool
  seen_uint :: bool
  seen_sint :: bool
  seen_object :: bool

definition saw_int :: "int \<Rightarrow> Seen \<Rightarrow> Seen" where
  "saw_int val seen =
     seen\<lparr>seen_int := True,
          seen_sint := seen_sint seen \<or> (- (2 ^ 63) \<le> val \<and> val < 0),
          seen_uint := seen_uint seen \<or> (2 ^ 63 - 1 < val \<and> val \<le> 2 ^ 64 - 1)\<rparr>"

fun convert_loop :: "Seen \<Rightarrow> pyval list \<Rightarrow> pyerror + Seen" where
  "convert_loop seen [] = Inr seen"
| "convert_loop seen (PNone # vs) = convert_loop (seen\<lparr>seen_null := True\<rparr>) vs"
| "convert_loop seen (PNaN # vs) = convert_loop (seen\<lparr>seen_nan := True\<rparr>) vs"
| "convert_loop seen (PBool b # vs) = convert_loop (seen\<lparr>seen_bool := True\<rparr>) vs"
| "convert_loop seen (PFloat x # vs) = convert_loop (seen\<lparr>seen_float := True\<rparr>) vs"
| "convert_loop seen (PInt val # vs) =
     (if double_overflow val then Inl OverflowError
      else if seen_null seen then convert_loop (seen\<lparr>seen_int := True\<rparr>) vs
      else let seen' = saw_int val seen
           in if (seen_uint seen' \<and> seen_sint seen') \<or> val > 2 ^ 64 - 1 \<or> val < - (2 ^ 63)
              then Inr (seen'\<lparr>seen_object := True\<rparr>)
              else convert_loop seen' vs)"
| "convert_loop seen (PStr s # vs) = Inr (seen\<lparr>seen_object := True\<rparr>)"
| "convert_loop seen (PEnum c n v # vs) = Inr (seen\<lparr>seen_object := True\<rparr>)"

text \<open>
  After the loop: a column in which a \<open>bool\<close> was met is a \<open>bool\<close> column if nothing
  else was met, and an \<open>object\<close> column otherwise. A column of numbers is \<open>float64\<close> if
  it has a \<open>float\<close>, or a missing value next to a number; there \<open>None\<close> becomes \<open>nan\<close>
  and an \<open>int\<close> its double. A column of \<open>int\<close>s alone is \<open>uint64\<close> if one is above the
  \<open>int64\<close> range, \<open>int64\<close> if not. Every other column, one of \<open>None\<close> alone too, is an
  \<open>object\<close> column and keeps its values.
\<close>

definition Seen_init :: Seen where
  "Seen_init = \<lparr>seen_null = False, seen_nan = False, seen_bool = False, seen_float = False,
                seen_int = False, seen_uint = False, seen_sint = False, seen_object = False\<rparr>"

definition maybe_convert_objects :: "pyval list \<Rightarrow> pyerror + dtype \<times> pyval list" where
  "maybe_convert_objects vs =
     (case convert_loop Seen_init vs of
        Inl e \<Rightarrow> Inl e
      | Inr seen \<Rightarrow>
          Inr (if seen_bool seen
               then (if seen_float seen \<or> seen_int seen \<or> seen_object seen
                        \<or> seen_nan seen \<or> seen_null seen
                     then (object_dtype, vs) else (bool_dtype, vs))
               else if seen_object seen then (object_dtype, vs)
               else if seen_null seen \<or> seen_nan seen
               then (if seen_float seen \<or> seen_int seen \<or> seen_nan seen
                     then (float64, map as_float vs) else (object_dtype, vs))
               else if seen_float seen then (float64, map as_float vs)
               else if seen_int seen
               then (if seen_uint seen then (uint64, vs) else (int64, vs))
               else (object_dtype, vs)))"

text \<open>The columns of \<open>DataFrame(dicts)\<close>: the keys of the dictionaries, in the order
  they first appear.\<close>

fun union_keys :: "string list \<Rightarrow> string list \<Rightarrow> string list" where
  "union_keys acc [] = acc"
| "union_keys acc (key # keys) = union_keys (if key \<in> set acc then acc else acc @ [key]) keys"

text \<open>The columns are converted one after the other; the first exception ends it.\<close>

fun convert_object_array :: "pyval list list \<Rightarrow> pyerror + (dtype \<times> pyval list) list" where
  "convert_object_array [] = Inr []"
| "convert_object_array (vs # content) =
     (case maybe_convert_objects vs of
        Inl e \<Rightarrow> Inl e
      | Inr arr \<Rightarrow>
          (case convert_object_array content of
             Inl e \<Rightarrow> Inl e
           | Inr arrs \<Rightarrow> Inr (arr # arrs)))"

text \<open>\<open>DataFrame(dicts)\<close> for a list of dictionaries; a key that a dictionary lacks
  gives \<open>nan\<close>.\<close>

definition DataFrame_of_dicts :: "(string \<times> pyval) list list \<Rightarrow> pyerror + DataFrame" where
  "DataFrame_of_dicts ds =
     (let cols = foldl union_keys [] (map (map fst) ds)
      in case convert_object_array
                (map (\<lambda>c. map (\<lambda>d. case map_of d c of None \<Rightarrow> PNaN | Some v \<Rightarrow> v) ds) cols) of
           Inl e \<Rightarrow> Inl e
         | Inr arrs \<Rightarrow> Inr \<lparr>columns = cols, arrays = arrs, nrows = length ds\<rparr>)"

text \<open>
  \<open>to_pandas\<close>. \<open>Deployment\<close> and \<open>Observation\<close> pass the objects' \<open>__dict__\<close>,
  \<open>Media\<close> passes \<open>asdict(m)\<close>:
  \<^verbatim>\<open>
  return DataFrame([deployment.__dict__ for deployment in deployments])
  return DataFrame([asdict(m) for m in media])
  \<close>
\<close>

definition to_pandas :: "kind \<Rightarrow> pyobj list \<Rightarrow> pyerror + DataFrame" where
  "to_pandas k objs =
     (case (if k = Media then asdict_all objs else Inr (map attrs objs)) of
        Inl e \<Rightarrow> Inl e
      | Inr ds \<Rightarrow> DataFrame_of_dicts ds)"

text \<open>
  \<open>DataFrame.iterrows\<close> takes the rows from \<open>self.values\<close>, one array of the type
  common to all columns: \<open>float64\<close> for \<open>int64\<close>, \<open>uint64\<close> and \<open>float64\<close> columns
  together, \<open>object\<close> for any other mix.
\<close>

definition common_dtype :: "dtype list \<Rightarrow> dtype" where
  "common_dtype ts =
     (case ts of
        [] \<Rightarrow> object_dtype
      | t # _ \<Rightarrow>
          if list_all (\<lambda>u. u = t) ts then t
          else if list_all (\<lambda>u. u = int64 \<or> u = uint64 \<or> u = float64) ts then float64
          else object_dtype)"

definition astype :: "dtype \<Rightarrow> dtype \<Rightarrow> pyval \<Rightarrow> pyval" where
  "astype target t v =
     (if target = float64 \<and> (t = int64 \<or> t = uint64) then as_float v else v)"

definition iterrows :: "DataFrame \<Rightarrow> pyval list list" where
  "iterrows df =
     (let target = common_dtype (map fst (arrays df))
      in map (\<lambda>i. map (\<lambda>(t, vs). astype target t (vs ! i)) (arrays df)) [0..<nrows df])"

text \<open>\<open>K(**row)\<close> for a row of \<open>iterrows\<close>, a \<open>Series\<close> indexed by the column labels: a
  label that occurs twice is a keyword given twice, a \<open>TypeError\<close>.\<close>

definition init_from_series :: "kind \<Rightarrow> string list \<Rightarrow> pyval list \<Rightarrow> pyerror + pyobj" where
  "init_from_series k labels vs =
     (if \<not> distinct labels then Inl TypeError else dataclass_init k (zip labels vs))"

fun init_all :: "kind \<Rightarrow> string list \<Rightarrow> pyval list list \<Rightarrow> pyerror + pyobj list" where
  "init_all k labels [] = Inr []"
| "init_all k labels (vs # rows) =
     (case init_from_series k labels vs of
        Inl e \<Rightarrow> Inl e
      | Inr obj \<Rightarrow>
          (case init_all k labels rows of Inl e \<Rightarrow> Inl e | Inr objs \<Rightarrow> Inr (obj # objs)))"

text \<open>
  \<open>from_pandas\<close> of the three classes:
  \<^verbatim>\<open>
  return [K(**row) for index, row in dataframe.iterrows()]
  \<close>
\<close>

definition from_pandas :: "kind \<Rightarrow> DataFrame \<Rightarrow> pyerror + pyobj list" where
  "from_pandas k df = init_all k (columns df) (iterrows df)"

subsection \<open>Example objects\<close>

text \<open>A \<open>Media\<close> object with every optional field absent.\<close>

definition media_blank :: pyobj where
  "media_blank =
     \<lparr>cls = Media,
      attrs = [(''mediaID'', PStr ''m1''), (''deploymentID'', PStr ''d1''),
               (''captureMethod'', PNone), (''timestamp'', PStr ''t''),
               (''filePath'', PStr ''p''), (''filePublic'', PBool True),
               (''fileName'', PNone), (''fileMediatype'', PStr ''image/jpeg''),
               (''exifData'', PNone), (''favorite'', PBool False),
               (''mediaComments'', PNone)]\<rparr>"


text \<open>Example files and the objects read from them.\<close>

definition media_header :: string where
  "media_header = ''mediaID,deploymentID,captureMethod,timestamp,filePath,filePublic,fileName,fileMediatype,exifData,favorite,mediaComments''"

definition media_two_rows :: string where
  "media_two_rows = media_header @ [CR, LF] @ ''m1,d1,timeLapse,t1,p1,true,,image/jpeg,,false,'' @ [CR, LF]
     @ ''m2,d1,bogus,t2,p2,maybe,n,image/png,,,c'' @ [CR, LF]"

definition media_header_only :: string where
  "media_header_only = media_header @ [CR, LF]"

definition media_short_row :: string where
  "media_short_row = media_header @ [LF] @ ''m1,d1,,t,p,true'' @ [LF]"

definition media_long_row :: string where
  "media_long_row = media_header @ [LF] @ ''m1,d1,,t,p,true,,image/jpeg,,,,extra'' @ [LF]"

definition media_bad_header :: string where
  "media_bad_header = ''mediaID,deploymentID'' @ [LF] @ ''m1,d1'' @ [LF]"

definition media_bad_header_only :: string where
  "media_bad_header_only = ''mediaID,deploymentID'' @ [LF]"

definition deployment_header :: string where
  "deployment_header = ''deploymentID,locationID,locationName,latitude,longitude,coordinateUncertainty,deploymentStart,deploymentEnd,setupBy,cameraID,cameraModel,cameraDelay,cameraHeight,cameraDepth,cameraTilt,cameraHeading,detectionDistance,timestampIssues,baitUse,featureType,habitat,deploymentGroups,deploymentTags,deploymentComments''"

definition deployment_uncoercible :: string where
  "deployment_uncoercible = deployment_header @ [CR, LF]
     @ ''d1,,,abc,4.9,,s,e,,,,soon,,,,,,maybe,,bogus,,,,'' @ [CR, LF]"

definition media_short_object :: pyobj where
  "media_short_object =
     \<lparr>cls = Media,
      attrs = [(''mediaID'', PStr ''m1''), (''deploymentID'', PStr ''d1''),
               (''captureMethod'', PStr []), (''timestamp'', PStr ''t''),
               (''filePath'', PStr ''p''), (''filePublic'', PStr ''true''),
               (''fileName'', PNone), (''fileMediatype'', PNone),
               (''exifData'', PNone), (''favorite'', PNone),
               (''mediaComments'', PNone)]\<rparr>"

definition deployment_uncoercible_object :: pyobj where
  "deployment_uncoercible_object =
     \<lparr>cls = Deployment,
      attrs = [(''deploymentID'', PStr ''d1''), (''locationID'', PStr []),
               (''locationName'', PStr []), (''latitude'', PStr ''abc''),
               (''longitude'', PStr ''4.9''), (''coordinateUncertainty'', PStr []),
               (''deploymentStart'', PStr ''s''), (''deploymentEnd'', PStr ''e''),
               (''setupBy'', PStr []), (''cameraID'', PStr []), (''cameraModel'', PStr []),
               (''cameraDelay'', PStr ''soon''), (''cameraHeight'', PStr []),
               (''cameraDepth'', PStr []), (''cameraTilt'', PStr []),
               (''cameraHeading'', PStr []), (''detectionDistance'', PStr []),
               (''timestampIssues'', PStr ''maybe''), (''baitUse'', PStr []),
               (''featureType'', PStr ''bogus''), (''habitat'', PStr []),
               (''deploymentGroups'', PStr []), (''deploymentTags'', PStr []),
               (''deploymentComments'', PStr [])]\<rparr>"

text \<open>Deployments with a \<open>cameraDelay\<close> of 5, with none, and with one of 4301 digits, and
  what \<open>from_pandas\<close> makes of the table of the first two.\<close>

definition deployment_attrs :: "pyval \<Rightarrow> pyval \<Rightarrow> (string \<times> pyval) list" where
  "deployment_attrs ident delay =
     [(''deploymentID'', ident), (''locationID'', PNone), (''locationName'', PNone),
      (''latitude'', PFloat 52), (''longitude'', PFloat 4),
      (''coordinateUncertainty'', PNone), (''deploymentStart'', PStr ''s''),
      (''deploymentEnd'', PStr ''e''), (''setupBy'', PNone), (''cameraID'', PNone),
      (''cameraModel'', PNone), (''cameraDelay'', delay), (''cameraHeight'', PNone),
      (''cameraDepth'', PNone), (''cameraTilt'', PNone), (''cameraHeading'', PNone),
      (''detectionDistance'', PNone), (''timestampIssues'', PNone), (''baitUse'', PNone),
      (''featureType'', PNone), (''habitat'', PNone), (''deploymentGroups'', PNone),
      (''deploymentTags'', PNone), (''deploymentComments'', PNone)]"

definition deployment_delay :: pyobj where
  "deployment_delay = \<lparr>cls = Deployment, attrs = deployment_attrs (PStr ''d1'') (PInt 5)\<rparr>"

definition deployment_no_delay :: pyobj where
  "deployment_no_delay = \<lparr>cls = Deployment, attrs = deployment_attrs (PStr ''d2'') PNone\<rparr>"

text \<open>The attributes of an instance of the root \<open>Deployment\<close>.\<close>

definition root_deployment :: "(string \<times> pyval) list" where
  "root_deployment =
     map (\<lambda>(name, v). (if name = ''habitat'' then ''habitatType'' else name, v))
         (deployment_attrs (PStr ''d1'') PNone)"




text \<open>The table of the first two.\<close>

definition deployment_pair_frame :: DataFrame where
  "deployment_pair_frame =
     \<lparr>columns = map fst Deployment_fields,
      arrays =
          [(object_dtype, [PStr ''d1'', PStr ''d2'']),
           (object_dtype, [PNone, PNone]), (object_dtype, [PNone, PNone]),
           (float64, [PFloat 52, PFloat 52]),
           (float64, [PFloat 4, PFloat 4]), (object_dtype, [PNone, PNone]),
           (object_dtype, [PStr ''s'', PStr ''s'']),
           (object_dtype, [PStr ''e'', PStr ''e'']),
           (object_dtype, [PNone, PNone]), (object_dtype, [PNone, PNone]),
           (object_dtype, [PNone, PNone]), (float64, [PFloat 5, PNaN]),
           (object_dtype, [PNone, PNone]), (object_dtype, [PNone, PNone]),
           (object_dtype, [PNone, PNone]), (object_dtype, [PNone, PNone]),
           (object_dtype, [PNone, PNone]), (object_dtype, [PNone, PNone]),
           (object_dtype, [PNone, PNone]), (object_dtype, [PNone, PNone]),
           (object_dtype, [PNone, PNone]), (object_dtype, [PNone, PNone]),
           (object_dtype, [PNone, PNone]), (object_dtype, [PNone, PNone])],
      nrows = 2\<rparr>"

text \<open>Two tables without a \<open>mediaID\<close> column, of one row and of none.\<close>

definition frame_one_row :: DataFrame where
  "frame_one_row =
     \<lparr>columns = [''deploymentID''], arrays = [(object_dtype, [PStr ''d1''])], nrows = 1\<rparr>"

definition frame_no_row :: DataFrame where
  "frame_no_row = \<lparr>columns = [''deploymentID''], arrays = [(object_dtype, [])], nrows = 0\<rparr>"

text \<open>What \<open>to_csv\<close> writes for \<open>media_blank\<close>; a \<open>Media\<close> object with a carriage
  return in its comment, the text written for it, the object read from that text, and
  the text written for that object.\<close>

definition media_blank_text :: string where
  "media_blank_text =
     media_header @ [CR, LF] @ ''m1,d1,,t,p,True,,image/jpeg,,False,'' @ [CR, LF]"

definition media_cr :: pyobj where
  "media_cr =
     \<lparr>cls = Media,
      attrs = [(''mediaID'', PStr ''m1''), (''deploymentID'', PStr ''d1''),
               (''captureMethod'', PNone), (''timestamp'', PStr ''t''),
               (''filePath'', PStr ''p''), (''filePublic'', PBool True),
               (''fileName'', PNone), (''fileMediatype'', PStr ''image/jpeg''),
               (''exifData'', PNone), (''favorite'', PBool False),
               (''mediaComments'', PStr [CHR ''a'', CR, CHR ''b''])]\<rparr>"

definition media_cr_text :: string where
  "media_cr_text =
     media_header @ [CR, LF] @ ''m1,d1,,t,p,True,,image/jpeg,,False,''
       @ [QUOTE, CHR ''a'', CR, CHR ''b'', QUOTE] @ [CR, LF]"

definition media_cr_read :: pyobj where
  "media_cr_read =
     \<lparr>cls = Media,
      attrs = [(''mediaID'', PStr ''m1''), (''deploymentID'', PStr ''d1''),
               (''captureMethod'', PStr []), (''timestamp'', PStr ''t''),
               (''filePath'', PStr ''p''), (''filePublic'', PStr ''True''),
               (''fileName'', PStr []), (''fileMediatype'', PStr ''image/jpeg''),
               (''exifData'', PStr []), (''favorite'', PStr ''False''),
               (''mediaComments'', PStr [CHR ''a'', LF, CHR ''b''])]\<rparr>"

definition media_cr_text_again :: string where
  "media_cr_text_again =
     media_header @ [CR, LF] @ ''m1,d1,,t,p,True,,image/jpeg,,False,''
       @ [QUOTE, CHR ''a'', LF, CHR ''b'', QUOTE] @ [CR, LF]"

section \<open>Properties\<close>

subsection \<open>Facts about the schemas and the dictionaries\<close>

lemma distinct_fieldnames: "distinct (fieldnames k)"
  by (cases k) (simp_all add: fieldnames_def Deployment_fields_def Media_fields_def Observation_fields_def)

lemma length_fieldnames: "2 \<le> length (fieldnames k)"
  by (cases k) (simp_all add: fieldnames_def Deployment_fields_def Media_fields_def Observation_fields_def)

lemma fieldnames_plain: "map join_append (fieldnames k) = fieldnames k"
  by (cases k) (simp_all add: fieldnames_def Deployment_fields_def Media_fields_def Observation_fields_def join_append_def special_def)

lemma bind_fields_sub:
  "distinct (map fst d) \<Longrightarrow> set xs \<subseteq> set d \<Longrightarrow> bind_fields d (map fst xs) = Some xs"
  by (induction xs) auto

lemma bind_fields_self: "distinct (map fst d) \<Longrightarrow> bind_fields d (map fst d) = Some d"
  by (rule bind_fields_sub) simp_all

lemma asdict_instance: "is_instance k obj \<Longrightarrow> asdict obj = Inr (attrs obj)"
  using bind_fields_self [of "attrs obj"] distinct_fieldnames [of k]
  by (simp add: is_instance_def asdict_def)

lemma asdict_all_instances:
  "\<forall>obj\<in>set objs. is_instance k obj \<Longrightarrow> asdict_all objs = Inr (map attrs objs)"
proof (induction objs)
  case Nil
  then show ?case by simp
next
  case (Cons obj objs)
  from Cons.prems have "is_instance k obj" by simp
  then have "asdict obj = Inr (attrs obj)" by (rule asdict_instance)
  with Cons show ?case by simp
qed

lemma lookup_all_self:
  "distinct (map fst d) \<Longrightarrow> set xs \<subseteq> set d \<Longrightarrow>
   map (\<lambda>key. case map_of d key of None \<Rightarrow> PStr [] | Some v \<Rightarrow> v) (map fst xs) = map snd xs"
  by (induction xs) auto

lemma dict_to_list_self:
  "distinct (map fst d) \<Longrightarrow> dict_to_list (map fst d) d = Inr (map snd d)"
  using lookup_all_self [of d d] by (simp add: dict_to_list_def list_all_iff)

lemma update_fresh: "k \<notin> fst ` set al \<Longrightarrow> AList.update k v al = al @ [(k, v)]"
  by (induction al) auto

lemma foldl_update_fresh:
  "distinct (map fst xs) \<Longrightarrow> fst ` set xs \<inter> fst ` set acc = {} \<Longrightarrow>
   foldl (\<lambda>d (k, v). AList.update k v d) acc xs = acc @ xs"
proof (induction xs arbitrary: acc)
  case Nil
  then show ?case by simp
next
  case (Cons x xs)
  obtain k v where x: "x = (k, v)" by (cases x)
  have fresh: "k \<notin> fst ` set acc" using Cons.prems x by auto
  have "foldl (\<lambda>d (k, v). AList.update k v d) (acc @ [(k, v)]) xs = (acc @ [(k, v)]) @ xs"
    using Cons.prems x by (intro Cons.IH) auto
  then show ?case using x fresh by (simp add: update_fresh)
qed

lemma dict_zip_distinct:
  "distinct ks \<Longrightarrow> dict_zip ks vs = zip ks vs"
proof -
  assume "distinct ks"
  then have "distinct (map fst (zip ks vs))"
    by (simp add: map_fst_zip_take)
  then show ?thesis
    using foldl_update_fresh [of "zip ks vs" "[]"] by (simp add: dict_zip_def)
qed

lemma join_fields_nonempty: "2 \<le> length fs \<Longrightarrow> join_fields fs \<noteq> []"
  by (cases fs rule: join_fields.cases) simp_all

lemma writerow_text_many:
  "2 \<le> length texts \<Longrightarrow> writerow_text texts = join_fields (map join_append texts) @ [CR, LF]"
  using join_fields_nonempty [of "map join_append texts"] by (simp add: writerow_text_def Let_def)

lemma csv_field_text_simps [simp]:
  "csv_field_text float_repr PNone = []"
  "csv_field_text float_repr (PStr s) = s"
  "csv_field_text float_repr (PBool b) = (if b then ''True'' else ''False'')"
  "csv_field_text float_repr (PFloat x) = float_repr x"
  "csv_field_text float_repr PNaN = ''nan''"
  "csv_field_text float_repr (PEnum c n v) = (if str_mixin c then v else enum_class_name c @ ''.'' @ n)"
  "writable (PInt i) \<Longrightarrow> csv_field_text float_repr (PInt i) = str_int i"
  by (simp_all add: csv_field_text_def)

lemma csv_field_writable:
  "writable v \<Longrightarrow> csv_field float_repr v = Inr (csv_field_text float_repr v)"
  by (cases v) (simp_all add: csv_field_text_def)

lemma csv_field_unwritable: "\<not> writable v \<Longrightarrow> csv_field float_repr v = Inl ValueError"
  by (cases v) simp_all

lemma csv_fields_writable:
  "list_all writable vs \<Longrightarrow> csv_fields float_repr vs = Inr (map (csv_field_text float_repr) vs)"
  by (induction vs) (simp_all add: csv_field_writable)

lemma csv_fields_unwritable:
  "\<not> list_all writable vs \<Longrightarrow> csv_fields float_repr vs = Inl ValueError"
proof (induction vs)
  case Nil
  then show ?case by simp
next
  case (Cons v vs)
  show ?case
  proof (cases "writable v")
    case True
    with Cons show ?thesis by (simp add: csv_field_writable)
  next
    case False
    then show ?thesis by (simp add: csv_field_unwritable)
  qed
qed

lemma writerow_writable:
  "list_all writable row \<Longrightarrow>
   writerow float_repr row = Inr (writerow_text (map (csv_field_text float_repr) row))"
  by (simp add: writerow_def csv_fields_writable)

lemma writerow_unwritable: "\<not> list_all writable row \<Longrightarrow> writerow float_repr row = Inl ValueError"
  by (simp add: writerow_def csv_fields_unwritable)

lemma writeheader_fieldnames:
  "writeheader float_repr (fieldnames k) = Inr (join_fields (fieldnames k) @ [CR, LF])"
proof -
  let ?d = "zip (fieldnames k) (map PStr (fieldnames k))"
  have d: "dict_zip (fieldnames k) (map PStr (fieldnames k)) = ?d"
    by (simp add: dict_zip_distinct distinct_fieldnames)
  have fst: "map fst ?d = fieldnames k" by simp
  have "dict_to_list (map fst ?d) ?d = Inr (map snd ?d)"
    by (rule dict_to_list_self) (simp add: distinct_fieldnames)
  then have "dict_to_list (fieldnames k) ?d = Inr (map PStr (fieldnames k))"
    by simp
  moreover have "map (csv_field_text float_repr) (map PStr (fieldnames k)) = fieldnames k"
    by (simp add: comp_def)
  moreover have "list_all writable (map PStr (fieldnames k))"
    by (simp add: list_all_iff)
  ultimately show ?thesis
    using length_fieldnames [of k]
    by (simp add: writeheader_def d writerow_writable writerow_text_many fieldnames_plain)
qed

lemma writerows_dicts:
  "\<forall>d\<in>set ds. map fst d = names \<Longrightarrow> distinct names \<Longrightarrow>
   \<forall>d\<in>set ds. list_all writable (map snd d) \<Longrightarrow>
   writerows float_repr names ds =
     Inr (concat (map (\<lambda>d. writerow_text (map (csv_field_text float_repr) (map snd d))) ds))"
proof (induction ds)
  case Nil
  then show ?case by simp
next
  case (Cons d ds)
  have "dict_to_list (map fst d) d = Inr (map snd d)"
    using Cons.prems by (intro dict_to_list_self) simp
  then have "dict_to_list names d = Inr (map snd d)" using Cons.prems by simp
  with Cons show ?case by (simp add: writerow_writable)
qed

lemma writerows_unwritable:
  "\<forall>d\<in>set ds. map fst d = names \<Longrightarrow> distinct names \<Longrightarrow>
   \<not> (\<forall>d\<in>set ds. list_all writable (map snd d)) \<Longrightarrow>
   writerows float_repr names ds = Inl ValueError"
proof (induction ds)
  case Nil
  then show ?case by simp
next
  case (Cons d ds)
  have "dict_to_list (map fst d) d = Inr (map snd d)"
    using Cons.prems by (intro dict_to_list_self) simp
  then have row: "dict_to_list names d = Inr (map snd d)" using Cons.prems by simp
  show ?case
  proof (cases "list_all writable (map snd d)")
    case True
    with Cons.prems have "\<not> (\<forall>d\<in>set ds. list_all writable (map snd d))" by simp
    with Cons have "writerows float_repr names ds = Inl ValueError" by simp
    with row True show ?thesis by (simp add: writerow_writable)
  next
    case False
    with row show ?thesis by (simp add: writerow_unwritable)
  qed
qed

lemma writable_attrs:
  "(\<forall>obj\<in>set objs. \<forall>(f, v)\<in>set (attrs obj). writable v) =
   (\<forall>d\<in>set (map attrs objs). list_all writable (map snd d))"
  by (fastforce simp: list_all_iff)

lemma to_csv_text:
  assumes "\<forall>obj\<in>set objs. is_instance k obj"
    and "\<forall>obj\<in>set objs. \<forall>(f, v)\<in>set (attrs obj). writable v"
  shows "to_csv float_repr k objs =
         Inr (join_fields (fieldnames k) @ [CR, LF] @
              concat (map (\<lambda>obj. writerow_text (map (csv_field_text float_repr) (map snd (attrs obj))))
                          objs))"
proof -
  have "writerows float_repr (fieldnames k) (map attrs objs) =
        Inr (concat (map (\<lambda>d. writerow_text (map (csv_field_text float_repr) (map snd d)))
                         (map attrs objs)))"
  proof (rule writerows_dicts)
    show "\<forall>d\<in>set (map attrs objs). map fst d = fieldnames k"
      using assms(1) by (auto simp: is_instance_def)
    show "distinct (fieldnames k)" by (rule distinct_fieldnames)
    show "\<forall>d\<in>set (map attrs objs). list_all writable (map snd d)"
      using assms(2) writable_attrs [of objs] by blast
  qed
  then show ?thesis
    using assms(1)
    by (simp add: to_csv_def writeheader_fieldnames asdict_all_instances file_write_def comp_def)
qed

lemma to_csv_unwritable:
  assumes "\<forall>obj\<in>set objs. is_instance k obj"
    and "\<not> (\<forall>obj\<in>set objs. \<forall>(f, v)\<in>set (attrs obj). writable v)"
  shows "to_csv float_repr k objs = Inl ValueError"
proof -
  have "writerows float_repr (fieldnames k) (map attrs objs) = Inl ValueError"
  proof (rule writerows_unwritable)
    show "\<forall>d\<in>set (map attrs objs). map fst d = fieldnames k"
      using assms(1) by (auto simp: is_instance_def)
    show "distinct (fieldnames k)" by (rule distinct_fieldnames)
    show "\<not> (\<forall>d\<in>set (map attrs objs). list_all writable (map snd d))"
      using assms(2) writable_attrs [of objs] by blast
  qed
  then show ?thesis
    using assms(1)
    by (simp add: to_csv_def writeheader_fieldnames asdict_all_instances file_write_def comp_def)
qed

lemma to_csv_Inr_writable:
  assumes "\<forall>obj\<in>set objs. is_instance k obj" and "to_csv float_repr k objs = Inr X"
  shows "\<forall>obj\<in>set objs. \<forall>(f, v)\<in>set (attrs obj). writable v"
proof (rule ccontr)
  assume "\<not> (\<forall>obj\<in>set objs. \<forall>(f, v)\<in>set (attrs obj). writable v)"
  with assms(1) have "to_csv float_repr k objs = Inl ValueError" by (rule to_csv_unwritable)
  with assms(2) show False by simp
qed

lemma writerow_cells:
  "2 \<le> length row \<Longrightarrow>
   writerow_text (map (csv_field_text float_repr) row) =
     join_fields (map (\<lambda>v. join_append (csv_field_text float_repr v)) row) @ [CR, LF]"
  by (simp add: writerow_text_many comp_def)

lemma row_cells:
  assumes "is_instance k obj"
  shows "writerow_text (map (csv_field_text float_repr) (map snd (attrs obj))) =
         join_fields (map (\<lambda>(f, v). join_append (csv_field_text float_repr v)) (attrs obj)) @ [CR, LF]"
proof -
  have "length (attrs obj) = length (fieldnames k)"
    using assms by (metis is_instance_def length_map)
  then have "2 \<le> length (map snd (attrs obj))"
    using length_fieldnames [of k] by simp
  then have "writerow_text (map (csv_field_text float_repr) (map snd (attrs obj))) =
             join_fields (map (\<lambda>v. join_append (csv_field_text float_repr v)) (map snd (attrs obj)))
             @ [CR, LF]"
    by (rule writerow_cells)
  moreover have "map (\<lambda>v. join_append (csv_field_text float_repr v)) (map snd (attrs obj)) =
                 map (\<lambda>(f, v). join_append (csv_field_text float_repr v)) (attrs obj)"
    by (simp add: comp_def case_prod_unfold)
  ultimately show ?thesis by (simp only:)
qed


lemma small_writable: "\<bar>i\<bar> < 10 \<Longrightarrow> writable (PInt i)"
proof -
  assume "\<bar>i\<bar> < 10"
  moreover have "(10::int) ^ 1 \<le> 10 ^ max_str_digits"
    by (rule power_increasing) (simp_all add: max_str_digits_def)
  ultimately show ?thesis by simp
qed

lemma long_int_unwritable: "\<not> writable (PInt (10 ^ max_str_digits))"
  by simp

lemma media_blank_instance: "is_instance Media media_blank"
  by (simp add: is_instance_def media_blank_def fieldnames_def Media_fields_def)

subsection \<open>Writing\<close>





subsection \<open>Facts about reading\<close>

lemma DictReader_next_blank:
  "reader_next ls = Inr (Some ([], ls')) \<Longrightarrow> DictReader_next ls = DictReader_next ls'"
  by (simp add: DictReader_next.simps [of ls])

lemma DictReader_next_row:
  "reader_next ls = Inr (Some (row, ls')) \<Longrightarrow> row \<noteq> [] \<Longrightarrow>
   DictReader_next ls = Inr (Some (row, ls'))"
  by (simp add: DictReader_next.simps [of ls])

lemma read_objects_csv_rows:
  "csv_rows ls = Inr rows \<Longrightarrow> read_objects k names ls = init_rows k names rows"
proof (induction ls arbitrary: rows rule: csv_rows.induct)
  case (1 ls)
  show ?case
  proof (cases "reader_next ls")
    case (Inl e)
    with "1.prems" show ?thesis by (simp add: csv_rows.simps [of ls])
  next
    case (Inr x)
    show ?thesis
    proof (cases x)
      case None
      with Inr "1.prems" have "rows = []" by (simp add: csv_rows.simps [of ls])
      moreover have "DictReader_next ls = Inr None"
        using Inr None by (simp add: DictReader_next.simps [of ls])
      ultimately show ?thesis by (simp add: read_objects.simps [of k names ls])
    next
      case (Some p)
      obtain row ls' where p: "p = (row, ls')" by (cases p)
      from "1.prems" Inr Some p obtain rows' where
        rows': "csv_rows ls' = Inr rows'" and rows: "rows = row # rows'"
        by (auto simp: csv_rows.simps [of ls] split: sum.splits)
      have IH: "read_objects k names ls' = init_rows k names rows'"
        using "1.IH" Inr Some p rows' by simp
      show ?thesis
      proof (cases "row = []")
        case True
        have "DictReader_next ls = DictReader_next ls'"
          using Inr Some p True by (simp add: DictReader_next_blank)
        then have "read_objects k names ls = read_objects k names ls'"
          by (simp add: read_objects.simps [of k names ls] read_objects.simps [of k names ls'])
        with IH rows True show ?thesis by simp
      next
        case False
        have "DictReader_next ls = Inr (Some (row, ls'))"
          using Inr Some p False by (simp add: DictReader_next_row)
        with IH rows False show ?thesis
          by (simp add: read_objects.simps [of k names ls] split: sum.splits)
      qed
    qed
  qed
qed

lemma from_csv_csv_rows:
  assumes "csv_rows (file_read_lines T) = Inr (names # rows)"
  shows "from_csv k T = init_rows k names rows"
proof -
  let ?ls = "file_read_lines T"
  from assms obtain ls' where "reader_next ?ls = Inr (Some (names, ls'))" and "csv_rows ls' = Inr rows"
    by (auto simp: csv_rows.simps [of ?ls] split: sum.splits option.splits)
  then show ?thesis
    by (simp add: from_csv_def read_objects_csv_rows)
qed

lemma from_csv_no_rows:
  assumes "csv_rows (file_read_lines T) = Inr []"
  shows "from_csv k T = Inr []"
  using assms
  by (auto simp: from_csv_def csv_rows.simps [of "file_read_lines T"] split: sum.splits option.splits)





subsection \<open>The dictionary of a row\<close>

lemma foldl_update_const:
  "foldl (\<lambda>d key. AList.update key v d) acc ks =
   foldl (\<lambda>d (k, v). AList.update k v d) acc (map (\<lambda>k. (k, v)) ks)"
  by (induction ks arbitrary: acc) simp_all



lemma keys_update: "fst ` set (AList.update k v al) = insert k (fst ` set al)"
  by (induction al) auto

lemma keys_foldl_update:
  "fst ` set (foldl (\<lambda>d (k, v). AList.update k v d) acc xs) = fst ` set acc \<union> fst ` set xs"
proof (induction xs arbitrary: acc)
  case Nil
  then show ?case by simp
next
  case (Cons x xs)
  obtain k v where x: "x = (k, v)" by (cases x)
  show ?case using Cons.IH [of "AList.update k v acc"] x by (auto simp: keys_update)
qed


lemma DictReader_dict_keys:
  assumes "length row \<le> length names"
  shows "fst ` set (entries (DictReader_dict names row)) = set names"
proof -
  let ?d = "dict_zip names (map PStr row)"
  have d: "fst ` set ?d = set (take (length row) names)"
    using keys_foldl_update [of "[]" "zip names (map PStr row)"] assms
    by (simp add: dict_zip_def set_map [symmetric] map_fst_zip_take min_def del: set_map)
  show ?thesis
  proof (cases "length names > length row")
    case True
    then have "entries (DictReader_dict names row) =
          foldl (\<lambda>d (k, v). AList.update k v d) ?d (map (\<lambda>k. (k, PNone)) (drop (length row) names))"
      by (simp add: DictReader_dict_def Let_def foldl_update_const)
    then have "fst ` set (entries (DictReader_dict names row)) =
               set (take (length row) names) \<union> set (drop (length row) names)"
      using keys_foldl_update [of ?d "map (\<lambda>k. (k, PNone)) (drop (length row) names)"] d
      by (simp add: image_image)
    then show ?thesis
      by (metis append_take_drop_id set_append)
  next
    case False
    with assms have "length row = length names" by simp
    then show ?thesis using d by (simp add: DictReader_dict_def Let_def)
  qed
qed

lemma DictReader_dict_rest:
  "rest (DictReader_dict names row) \<noteq> None \<longleftrightarrow> length names < length row"
  by (simp add: DictReader_dict_def Let_def)

lemma zip_take_left: "zip (take (length ys) xs) ys = zip xs ys"
  by (induction xs ys rule: list_induct2') simp_all

lemma DictReader_dict_padded:
  assumes "distinct names" and "length row \<le> length names"
  shows "DictReader_dict names row =
         \<lparr>entries = zip names (map PStr row @ replicate (length names - length row) PNone),
          rest = None\<rparr>"
proof -
  let ?lr = "length row"
  have d: "dict_zip names (map PStr row) = zip (take ?lr names) (map PStr row)"
    using assms by (simp add: dict_zip_distinct zip_take_left [of "map PStr row", simplified])
  show ?thesis
  proof (cases "length names > ?lr")
    case True
    let ?tail = "map (\<lambda>k. (k, PNone)) (drop ?lr names)"
    have "distinct (take ?lr names @ drop ?lr names)" using assms by simp
    then have disj: "set (take ?lr names) \<inter> set (drop ?lr names) = {}"
      and dd: "distinct (drop ?lr names)"
      by (simp_all only: distinct_append)
    have "foldl (\<lambda>d (k, v). AList.update k v d) (zip (take ?lr names) (map PStr row)) ?tail =
          zip (take ?lr names) (map PStr row) @ ?tail"
    proof (rule foldl_update_fresh)
      show "distinct (map fst ?tail)" using dd by (simp add: comp_def)
      have "fst ` set (zip (take ?lr names) (map PStr row)) \<subseteq> set (take ?lr names)"
        by (auto dest: set_zip_leftD)
      moreover have "fst ` set ?tail = set (drop ?lr names)" by (simp add: image_image)
      ultimately show "fst ` set ?tail \<inter> fst ` set (zip (take ?lr names) (map PStr row)) = {}"
        using disj by auto
    qed
    moreover have "?tail = zip (drop ?lr names) (replicate (length names - ?lr) PNone)"
      by (simp add: zip_replicate2 map_replicate_const [symmetric] del: map_replicate_const)
    moreover have "zip (take ?lr names) (map PStr row) @
                   zip (drop ?lr names) (replicate (length names - ?lr) PNone)
                   = zip (take ?lr names @ drop ?lr names)
                         (map PStr row @ replicate (length names - ?lr) PNone)"
      using assms by (subst zip_append) simp_all
    ultimately show ?thesis
      using True d by (simp add: DictReader_dict_def Let_def foldl_update_const)
  next
    case False
    with assms have "length row = length names" by simp
    then show ?thesis using d by (simp add: DictReader_dict_def Let_def)
  qed
qed


subsection \<open>The objects of the rows\<close>

lemma bind_fields_Some:
  "bind_fields d fs = Some a \<Longrightarrow> map fst a = fs \<and> set a \<subseteq> set d \<and> set fs \<subseteq> fst ` set d"
proof (induction fs arbitrary: a)
  case Nil
  then show ?case by simp
next
  case (Cons f fs)
  from Cons.prems obtain v a' where v: "map_of d f = Some v"
    and a': "bind_fields d fs = Some a'" and a: "a = (f, v) # a'"
    by (auto split: option.splits)
  have "(f, v) \<in> set d" using v by (rule map_of_SomeD)
  moreover have "f \<in> fst ` set d" using calculation by force
  ultimately show ?case using Cons.IH [OF a'] a by simp
qed

lemma init_from_row_error:
  "init_from_row k d = Inl e \<Longrightarrow> e = TypeError"
  by (auto simp: init_from_row_def dataclass_init_def split: if_splits option.splits)

lemma init_from_row_long:
  "length names < length row \<Longrightarrow> init_from_row k (DictReader_dict names row) = Inl TypeError"
  using DictReader_dict_rest [of names row] by (simp add: init_from_row_def)

lemma init_from_row_mismatch:
  assumes "set names \<noteq> set (fieldnames k)"
  shows "init_from_row k (DictReader_dict names row) = Inl TypeError"
proof (cases "length names < length row")
  case True
  then show ?thesis by (rule init_from_row_long)
next
  case False
  let ?d = "entries (DictReader_dict names row)"
  have keys: "fst ` set ?d = set names"
    using False by (intro DictReader_dict_keys) simp
  show ?thesis
  proof (rule ccontr)
    assume "init_from_row k (DictReader_dict names row) \<noteq> Inl TypeError"
    then obtain obj where "init_from_row k (DictReader_dict names row) = Inr obj"
      using init_from_row_error [of k "DictReader_dict names row"]
      by (cases "init_from_row k (DictReader_dict names row)") auto
    then have sub: "list_all (\<lambda>key. key \<in> set (fieldnames k)) (map fst ?d)"
      and "\<exists>a. bind_fields ?d (fieldnames k) = Some a"
      by (auto simp: init_from_row_def dataclass_init_def split: if_splits option.splits)
    then have "set (fieldnames k) \<subseteq> fst ` set ?d"
      using bind_fields_Some by blast
    moreover have "fst ` set ?d \<subseteq> set (fieldnames k)"
      using sub by (auto simp: list_all_iff)
    ultimately show False using keys assms by auto
  qed
qed

lemma init_from_row_padded:
  assumes "length row \<le> length (fieldnames k)"
  shows "init_from_row k (DictReader_dict (fieldnames k) row) =
         Inr \<lparr>cls = k,
              attrs = zip (fieldnames k)
                          (map PStr row @ replicate (length (fieldnames k) - length row) PNone)\<rparr>"
proof -
  let ?vs = "map PStr row @ replicate (length (fieldnames k) - length row) PNone"
  let ?d = "zip (fieldnames k) ?vs"
  have len: "length ?vs = length (fieldnames k)" using assms by simp
  then have fst: "map fst ?d = fieldnames k" by simp
  have "bind_fields ?d (map fst ?d) = Some ?d"
    by (rule bind_fields_self) (simp add: fst distinct_fieldnames)
  then have "bind_fields ?d (fieldnames k) = Some ?d" by (simp only: fst)
  moreover have "list_all (\<lambda>key. key \<in> set (fieldnames k)) (map fst ?d)"
    by (simp only: fst) (simp add: list_all_iff)
  ultimately show ?thesis
    using assms
    by (simp add: init_from_row_def dataclass_init_def DictReader_dict_padded distinct_fieldnames)
qed


lemma init_rows_error:
  "init_rows k names rows = Inl e \<Longrightarrow> e = TypeError"
  by (induction rows) (auto split: if_splits sum.splits dest: init_from_row_error)

lemma init_rows_fails:
  assumes "row \<in> set rows" and "row \<noteq> []"
    and "init_from_row k (DictReader_dict names row) = Inl TypeError"
  shows "init_rows k names rows = Inl TypeError"
proof (rule ccontr)
  assume "init_rows k names rows \<noteq> Inl TypeError"
  then obtain objs where "init_rows k names rows = Inr objs"
    using init_rows_error [of k names rows] by (cases "init_rows k names rows") auto
  then show False
    using assms by (induction rows arbitrary: objs) (auto split: if_splits sum.splits)
qed

lemma init_rows_padded:
  assumes "\<forall>row\<in>set rows. row \<noteq> [] \<and> length row \<le> length (fieldnames k)"
  shows "init_rows k (fieldnames k) rows =
         Inr (map (\<lambda>row. \<lparr>cls = k,
                           attrs = zip (fieldnames k)
                             (map PStr row @ replicate (length (fieldnames k) - length row) PNone)\<rparr>)
                  rows)"
  using assms by (induction rows) (simp_all add: init_from_row_padded)


lemma from_csv_exact_rows:
  assumes "csv_rows (file_read_lines T) = Inr (fieldnames k # rows)"
    and "\<forall>row\<in>set rows. length row = length (fieldnames k)"
  shows "from_csv k T = Inr (map (\<lambda>row. \<lparr>cls = k, attrs = zip (fieldnames k) (map PStr row)\<rparr>) rows)"
proof -
  have "\<forall>row\<in>set rows. row \<noteq> [] \<and> length row \<le> length (fieldnames k)"
    using assms(2) length_fieldnames [of k] by auto
  then have "init_rows k (fieldnames k) rows =
         Inr (map (\<lambda>row. \<lparr>cls = k,
                           attrs = zip (fieldnames k)
                             (map PStr row @ replicate (length (fieldnames k) - length row) PNone)\<rparr>)
                  rows)"
    by (rule init_rows_padded)
  also have "map (\<lambda>row. \<lparr>cls = k,
                           attrs = zip (fieldnames k)
                             (map PStr row @ replicate (length (fieldnames k) - length row) PNone)\<rparr>)
                  rows = map (\<lambda>row. \<lparr>cls = k, attrs = zip (fieldnames k) (map PStr row)\<rparr>) rows"
    using assms(2) by (intro map_cong) simp_all
  finally show ?thesis using from_csv_csv_rows [OF assms(1), of k] by simp
qed


subsection \<open>Reading\<close>

lemmas reader_simps = reader_next_def parse_reset_def process_line_def parse_process_char_def
  start_field_def parse_add_char_def parse_save_field_def set_state_def is_newline_def field_limit_def

lemma media_fieldnames:
  "fieldnames Media = [''mediaID'', ''deploymentID'', ''captureMethod'', ''timestamp'', ''filePath'',
     ''filePublic'', ''fileName'', ''fileMediatype'', ''exifData'', ''favorite'', ''mediaComments'']"
  by (simp add: fieldnames_def Media_fields_def)

lemma media_two_rows_parsed:
  "csv_rows (file_read_lines media_two_rows) =
     Inr [fieldnames Media,
          [''m1'', ''d1'', ''timeLapse'', ''t1'', ''p1'', ''true'', [], ''image/jpeg'', [], ''false'', []],
          [''m2'', ''d1'', ''bogus'', ''t2'', ''p2'', ''maybe'', ''n'', ''image/png'', [], [], ''c'']]"
  by (simp add: media_two_rows_def media_header_def file_read_lines_def csv_rows.simps reader_simps media_fieldnames)

lemma media_header_only_parsed:
  "csv_rows (file_read_lines media_header_only) = Inr [fieldnames Media]"
  by (simp add: media_header_only_def media_header_def file_read_lines_def csv_rows.simps reader_simps media_fieldnames)

lemma media_short_row_parsed:
  "csv_rows (file_read_lines media_short_row) =
     Inr [fieldnames Media, [''m1'', ''d1'', [], ''t'', ''p'', ''true'']]"
  by (simp add: media_short_row_def media_header_def file_read_lines_def csv_rows.simps reader_simps media_fieldnames)

lemma media_long_row_parsed:
  "csv_rows (file_read_lines media_long_row) =
     Inr [fieldnames Media, [''m1'', ''d1'', [], ''t'', ''p'', ''true'', [], ''image/jpeg'', [], [], [], ''extra'']]"
  by (simp add: media_long_row_def media_header_def file_read_lines_def csv_rows.simps reader_simps media_fieldnames)

lemma media_bad_header_parsed:
  "csv_rows (file_read_lines media_bad_header) = Inr [[''mediaID'', ''deploymentID''], [''m1'', ''d1'']]"
  by (simp add: media_bad_header_def file_read_lines_def csv_rows.simps reader_simps)

lemma media_bad_header_only_parsed:
  "csv_rows (file_read_lines media_bad_header_only) = Inr [[''mediaID'', ''deploymentID'']]"
  by (simp add: media_bad_header_only_def file_read_lines_def csv_rows.simps reader_simps)

lemma deployment_fieldnames:
  "fieldnames Deployment = [''deploymentID'', ''locationID'', ''locationName'', ''latitude'',
     ''longitude'', ''coordinateUncertainty'', ''deploymentStart'', ''deploymentEnd'', ''setupBy'',
     ''cameraID'', ''cameraModel'', ''cameraDelay'', ''cameraHeight'', ''cameraDepth'', ''cameraTilt'',
     ''cameraHeading'', ''detectionDistance'', ''timestampIssues'', ''baitUse'', ''featureType'',
     ''habitat'', ''deploymentGroups'', ''deploymentTags'', ''deploymentComments'']"
  by (simp add: fieldnames_def Deployment_fields_def)

lemma deployment_uncoercible_parsed:
  "csv_rows (file_read_lines deployment_uncoercible) =
     Inr [fieldnames Deployment,
          [''d1'', [], [], ''abc'', ''4.9'', [], ''s'', ''e'', [], [], [], ''soon'', [], [], [], [], [],
           ''maybe'', [], ''bogus'', [], [], [], []]]"
  by (simp add: deployment_uncoercible_def deployment_header_def file_read_lines_def csv_rows.simps
        reader_simps deployment_fieldnames)

text \<open>
  Claim C7. For every record kind and every well-formed text (its first row is the
  field names in declaration order, every other row has as many cells), \<open>from_csv\<close>
  returns the objects of the data rows, one for each row and in the order of the rows,
  each holding the cells of its row; a text of the header row alone gives the empty
  list.
\<close>

theorem from_csv_one_object_per_row:
  assumes "csv_rows (file_read_lines T) = Inr (fieldnames k # rows)"
    and "\<forall>row\<in>set rows. length row = length (fieldnames k)"
  shows "from_csv k T = Inr (map (\<lambda>row. \<lparr>cls = k, attrs = zip (fieldnames k) (map PStr row)\<rparr>) rows)"
  using assms by (rule from_csv_exact_rows)

theorem from_csv_one_object_per_row_witness:
  "from_csv Media media_two_rows =
     Inr [\<lparr>cls = Media,
           attrs = [(''mediaID'', PStr ''m1''), (''deploymentID'', PStr ''d1''),
                    (''captureMethod'', PStr ''timeLapse''), (''timestamp'', PStr ''t1''),
                    (''filePath'', PStr ''p1''), (''filePublic'', PStr ''true''),
                    (''fileName'', PStr []), (''fileMediatype'', PStr ''image/jpeg''),
                    (''exifData'', PStr []), (''favorite'', PStr ''false''),
                    (''mediaComments'', PStr [])]\<rparr>,
          \<lparr>cls = Media,
           attrs = [(''mediaID'', PStr ''m2''), (''deploymentID'', PStr ''d1''),
                    (''captureMethod'', PStr ''bogus''), (''timestamp'', PStr ''t2''),
                    (''filePath'', PStr ''p2''), (''filePublic'', PStr ''maybe''),
                    (''fileName'', PStr ''n''), (''fileMediatype'', PStr ''image/png''),
                    (''exifData'', PStr []), (''favorite'', PStr []),
                    (''mediaComments'', PStr ''c'')]\<rparr>]
   \<and> from_csv Media media_header_only = Inr []"
  using from_csv_one_object_per_row [OF media_two_rows_parsed]
    from_csv_one_object_per_row [OF media_header_only_parsed]
  by (simp add: media_fieldnames)


lemma media_short_row_objects:
  "from_csv Media media_short_row = Inr [media_short_object]"
proof -
  have "init_rows Media (fieldnames Media) [[''m1'', ''d1'', [], ''t'', ''p'', ''true'']] =
        Inr (map (\<lambda>row. \<lparr>cls = Media,
                           attrs = zip (fieldnames Media)
                             (map PStr row @ replicate (length (fieldnames Media) - length row) PNone)\<rparr>)
                  [[''m1'', ''d1'', [], ''t'', ''p'', ''true'']])"
    by (rule init_rows_padded) (simp add: media_fieldnames)
  then show ?thesis
    using from_csv_csv_rows [OF media_short_row_parsed, of Media]
    by (simp add: media_fieldnames numeral_eq_Suc media_short_object_def)
qed


lemma media_bad_header_names:
  "set [''mediaID'', ''deploymentID''] \<noteq> set (fieldnames Media)"
proof -
  have "''timestamp'' \<in> set (fieldnames Media)" by (simp add: media_fieldnames)
  moreover have "''timestamp'' \<notin> set [''mediaID'', ''deploymentID'']" by simp
  ultimately show ?thesis by metis
qed

text \<open>
  Claim C3, as the code has it. The package has no \<open>FormatError\<close>. When the text
  parses into rows, and either the names of its header row are not the set of the
  declared field names and some data row is not blank, or some data row has more cells
  than the header row, \<open>from_csv\<close> raises the \<open>TypeError\<close> of the dataclass's
  \<open>__init__\<close>.
\<close>

theorem from_csv_malformed_TypeError:
  assumes "csv_rows (file_read_lines T) = Inr (names # rows)"
    and "(set names \<noteq> set (fieldnames k) \<and> (\<exists>row\<in>set rows. row \<noteq> []))
         \<or> (\<exists>row\<in>set rows. length names < length row)"
  shows "from_csv k T = Inl TypeError"
proof -
  from assms(2) obtain row where row: "row \<in> set rows" "row \<noteq> []"
    and bad: "set names \<noteq> set (fieldnames k) \<or> length names < length row"
    by (elim disjE conjE bexE) (blast, force)
  have "init_from_row k (DictReader_dict names row) = Inl TypeError"
    using bad init_from_row_mismatch init_from_row_long by blast
  with row have "init_rows k names rows = Inl TypeError"
    by (rule init_rows_fails)
  then show ?thesis using from_csv_csv_rows [OF assms(1), of k] by simp
qed

theorem from_csv_malformed_TypeError_witness:
  "csv_rows (file_read_lines media_bad_header) = Inr [[''mediaID'', ''deploymentID''], [''m1'', ''d1'']]
   \<and> set [''mediaID'', ''deploymentID''] \<noteq> set (fieldnames Media)
   \<and> from_csv Media media_bad_header = Inl TypeError
   \<and> csv_rows (file_read_lines media_long_row) =
       Inr [fieldnames Media,
            [''m1'', ''d1'', [], ''t'', ''p'', ''true'', [], ''image/jpeg'', [], [], [], ''extra'']]
   \<and> from_csv Media media_long_row = Inl TypeError"
proof -
  note ne = media_bad_header_names
  have "(set [''mediaID'', ''deploymentID''] \<noteq> set (fieldnames Media)
          \<and> (\<exists>row\<in>set [[''m1'', ''d1'']]. row \<noteq> []))
        \<or> (\<exists>row\<in>set [[''m1'', ''d1'']]. length [''mediaID'', ''deploymentID''] < length row)"
  proof (intro disjI1 conjI)
    show "set [''mediaID'', ''deploymentID''] \<noteq> set (fieldnames Media)" by (rule ne)
    show "\<exists>row\<in>set [[''m1'', ''d1'']]. row \<noteq> []" by simp
  qed
  with media_bad_header_parsed have "from_csv Media media_bad_header = Inl TypeError"
    by (rule from_csv_malformed_TypeError)
  moreover have "from_csv Media media_long_row = Inl TypeError"
    by (rule from_csv_malformed_TypeError [OF media_long_row_parsed]) (simp add: media_fieldnames)
  ultimately show ?thesis
    using ne media_bad_header_parsed media_long_row_parsed by (intro conjI)
qed

text \<open>The claim as stated fails: a row with fewer cells than the header is accepted,
  the missing fields set to \<open>None\<close>; a header that lacks fields is accepted when no data
  row follows; and with a data row the error is a \<open>TypeError\<close>.\<close>

theorem from_csv_FormatError_counterexample:
  "from_csv Media media_short_row = Inr [media_short_object]
   \<and> from_csv Media media_bad_header_only = Inr []
   \<and> from_csv Media media_bad_header = Inl TypeError
   \<and> from_csv Media media_bad_header \<noteq> Inl FormatError"
proof -
  have "from_csv Media media_bad_header_only = Inr []"
    using from_csv_csv_rows [OF media_bad_header_only_parsed, of Media] by simp
  moreover have "from_csv Media media_bad_header = Inl TypeError"
  proof -
    have "init_from_row Media (DictReader_dict [''mediaID'', ''deploymentID''] [''m1'', ''d1'']) = Inl TypeError"
      by (rule init_from_row_mismatch) (rule media_bad_header_names)
    then show ?thesis
      using from_csv_csv_rows [OF media_bad_header_parsed, of Media] by simp
  qed
  ultimately show ?thesis using media_short_row_objects by simp
qed



text \<open>
  Claim C2, as the code has it. \<open>from_csv\<close> coerces nothing. In a well-formed text,
  a cell whose text cannot be coerced to the declared type of its field (as the
  specification describes the coercion) raises no \<open>ValueError\<close>: the objects are
  returned and the field holds the text of the cell, unchanged, as a \<open>str\<close>.
\<close>

theorem from_csv_stores_uncoercible_text:
  assumes "csv_rows (file_read_lines T) = Inr (fieldnames k # rows)"
    and "\<forall>row\<in>set rows. length row = length (fieldnames k)"
    and "i < length rows" and "j < length (fieldnames k)"
    and "\<not> spec_coercible (snd (dataclass_fields k ! j)) (rows ! i ! j)"
  shows "\<exists>objs. from_csv k T = Inr objs \<and>
                attrs (objs ! i) ! j = (fieldnames k ! j, PStr (rows ! i ! j))"
proof -
  let ?objs = "map (\<lambda>row. \<lparr>cls = k, attrs = zip (fieldnames k) (map PStr row)\<rparr>) rows"
  have "from_csv k T = Inr ?objs"
    using assms(1,2) by (rule from_csv_exact_rows)
  moreover have "length (rows ! i) = length (fieldnames k)"
    using assms(2,3) by simp
  then have "attrs (?objs ! i) ! j = (fieldnames k ! j, PStr (rows ! i ! j))"
    using assms(3,4) by simp
  ultimately show ?thesis by blast
qed

lemma deployment_uncoercible_objects:
  "from_csv Deployment deployment_uncoercible = Inr [deployment_uncoercible_object]"
  using from_csv_exact_rows [OF deployment_uncoercible_parsed]
  by (simp add: deployment_fieldnames deployment_uncoercible_object_def)

lemma uncoercible_texts:
  "\<not> spec_coercible T_float ''abc''"
  "\<not> spec_coercible (Optional T_int) ''soon''"
  "\<not> spec_coercible (Optional T_bool) ''maybe''"
  "\<not> spec_coercible (Optional (T_enum FeatureType)) ''bogus''"
  by (simp_all add: decimal_text_def integer_text_def digits_text_def unsigned_def is_digit_def)

text \<open>The claim as stated fails: text that is no number in the \<open>float\<close> field
  \<open>latitude\<close>, no boolean form in the \<open>bool\<close> field \<open>timestampIssues\<close> and no declared
  value in the \<open>FeatureType\<close> field \<open>featureType\<close> is read without any error and
  kept.\<close>

theorem from_csv_ValueError_counterexample:
  "dataclass_fields Deployment ! 3 = (''latitude'', T_float)
   \<and> \<not> spec_coercible T_float ''abc''
   \<and> dataclass_fields Deployment ! 17 = (''timestampIssues'', Optional T_bool)
   \<and> \<not> spec_coercible (Optional T_bool) ''maybe''
   \<and> dataclass_fields Deployment ! 19 = (''featureType'', Optional (T_enum FeatureType))
   \<and> \<not> spec_coercible (Optional (T_enum FeatureType)) ''bogus''
   \<and> from_csv Deployment deployment_uncoercible = Inr [deployment_uncoercible_object]
   \<and> from_csv Deployment deployment_uncoercible \<noteq> Inl ValueError
   \<and> attrs deployment_uncoercible_object ! 3 = (''latitude'', PStr ''abc'')
   \<and> attrs deployment_uncoercible_object ! 17 = (''timestampIssues'', PStr ''maybe'')
   \<and> attrs deployment_uncoercible_object ! 19 = (''featureType'', PStr ''bogus'')"
  using uncoercible_texts deployment_uncoercible_objects
  by (simp add: Deployment_fields_def deployment_uncoercible_object_def)

theorem from_csv_stores_uncoercible_text_witness:
  "csv_rows (file_read_lines deployment_uncoercible) =
     Inr [fieldnames Deployment,
          [''d1'', [], [], ''abc'', ''4.9'', [], ''s'', ''e'', [], [], [], ''soon'', [], [], [], [], [],
           ''maybe'', [], ''bogus'', [], [], [], []]]
   \<and> \<not> spec_coercible (snd (dataclass_fields Deployment ! 11)) ''soon''
   \<and> (\<exists>objs. from_csv Deployment deployment_uncoercible = Inr objs \<and>
               attrs (objs ! 0) ! 11 = (''cameraDelay'', PStr ''soon''))"
proof -
  have t: "\<not> spec_coercible (snd (dataclass_fields Deployment ! 11)) ''soon''"
    using uncoercible_texts by (simp add: Deployment_fields_def)
  have "\<exists>objs. from_csv Deployment deployment_uncoercible = Inr objs \<and>
          attrs (objs ! 0) ! 11 =
            (fieldnames Deployment ! 11,
             PStr ([[''d1'', [], [], ''abc'', ''4.9'', [], ''s'', ''e'', [], [], [], ''soon'', [], [], [], [], [],
           ''maybe'', [], ''bogus'', [], [], [], []]] ! 0 ! 11))"
    by (rule from_csv_stores_uncoercible_text [OF deployment_uncoercible_parsed])
       (use t in \<open>simp_all add: deployment_fieldnames\<close>)
  then have "\<exists>objs. from_csv Deployment deployment_uncoercible = Inr objs \<and>
               attrs (objs ! 0) ! 11 = (''cameraDelay'', PStr ''soon'')"
    by (simp add: deployment_fieldnames)
  with t deployment_uncoercible_parsed show ?thesis by (intro conjI)
qed


subsection \<open>Booleans\<close>




subsection \<open>The package root\<close>

text \<open>
  Claim C10, as the code has it. The \<open>Deployment\<close> of the package root declares the
  fields of \<open>camtrapdp/deployments.py\<close>, with the same types and in the same order,
  except that \<open>habitat\<close> is named \<open>habitatType\<close>. Its \<open>from_csv\<close> and \<open>to_csv\<close> never
  return, so this definition never reads or writes a file; they raise
  \<open>NotImplementedError\<close> on the call through the class without arguments, and
  \<open>TypeError\<close> on every other call: with a positional or a keyword argument, or
  through an instance.
\<close>

theorem Root_Deployment_never_converts:
  "Root_Deployment_from_csv args kwargs =
     (if args = [] \<and> kwargs = [] then Inl NotImplementedError else Inl TypeError)
   \<and> Root_Deployment_to_csv args kwargs =
     (if args = [] \<and> kwargs = [] then Inl NotImplementedError else Inl TypeError)
   \<and> Root_Deployment_from_csv (Instance d # args) kwargs = Inl TypeError
   \<and> Root_Deployment_to_csv (Instance d # args) kwargs = Inl TypeError
   \<and> (\<forall>objs. Root_Deployment_from_csv args kwargs \<noteq> Inr objs)
   \<and> (\<forall>X. Root_Deployment_to_csv args kwargs \<noteq> Inr X)
   \<and> Root_Deployment_fields =
       map (\<lambda>(name, t). (if name = ''habitat'' then ''habitatType'' else name, t)) Deployment_fields
   \<and> ''habitatType'' \<notin> set (fieldnames Deployment)
   \<and> ''habitat'' \<notin> set (map fst Root_Deployment_fields)"
  by (simp add: Root_Deployment_from_csv_def Root_Deployment_to_csv_def
        Root_Deployment_fields_def Deployment_fields_def fieldnames_def)

theorem Root_Deployment_never_converts_witness:
  "Root_Deployment_from_csv [] [] = Inl NotImplementedError
   \<and> Root_Deployment_to_csv [] [] = Inl NotImplementedError"
  using Root_Deployment_never_converts [of "[]" "[]"] by simp

text \<open>The claim as stated fails on a call that passes the path of a file, on the call
  \<open>to_csv(deployments, path)\<close>, on a call with a keyword argument and on a call
  through an instance: each raises \<open>TypeError\<close>, not \<open>NotImplementedError\<close>.\<close>

theorem Root_Deployment_NotImplementedError_counterexample:
  "Root_Deployment_from_csv [Value (PStr ''deployments.csv'')] [] = Inl TypeError
   \<and> Root_Deployment_from_csv [Value (PStr ''deployments.csv'')] [] \<noteq> Inl NotImplementedError
   \<and> Root_Deployment_to_csv [Instances [], Value (PStr ''deployments.csv'')] [] = Inl TypeError
   \<and> Root_Deployment_from_csv [] [(''file_path'', Value (PStr ''deployments.csv''))] = Inl TypeError
   \<and> map fst root_deployment = map fst Root_Deployment_fields
   \<and> Root_Deployment_from_csv [Instance root_deployment] [] = Inl TypeError"
  by (simp add: Root_Deployment_from_csv_def Root_Deployment_to_csv_def root_deployment_def
        deployment_attrs_def Root_Deployment_fields_def)

subsection \<open>Facts about tables\<close>

lemma float_of_int_exact:
  assumes "\<bar>i\<bar> < 2 ^ 53"
  shows "float_of_int i = real_of_int i"
proof -
  have "nat \<bar>i\<bar> < 2 ^ 53" using assms by (simp add: nat_less_iff)
  then have "floorlog 2 (nat \<bar>i\<bar>) \<le> 53" by (intro floorlog_leI) simp_all
  then have e: "floorlog 2 (nat \<bar>i\<bar>) - 53 = 0" by simp
  have "real_of_int (sgn i) * real (nat \<bar>i\<bar>) = real_of_int i"
    by (cases "i < 0") (simp_all add: sgn_if)
  then show ?thesis by (simp add: float_of_int_def Let_def e)
qed

lemma dataclass_init_missing:
  assumes "f \<in> set (fieldnames k)" and "f \<notin> fst ` set kwargs"
  shows "dataclass_init k kwargs = Inl TypeError"
proof -
  have "bind_fields kwargs (fieldnames k) = None"
  proof (cases "bind_fields kwargs (fieldnames k)")
    case None
    then show ?thesis .
  next
    case (Some a)
    then have "set (fieldnames k) \<subseteq> fst ` set kwargs" using bind_fields_Some by blast
    with assms show ?thesis by auto
  qed
  then show ?thesis by (simp add: dataclass_init_def)
qed

lemma init_from_series_missing:
  assumes "f \<in> set (fieldnames k)" and "f \<notin> set labels"
  shows "init_from_series k labels vs = Inl TypeError"
proof -
  have "f \<notin> fst ` set (zip labels vs)" using assms(2) by (auto dest: set_zip_leftD)
  with assms(1) have "dataclass_init k (zip labels vs) = Inl TypeError"
    by (rule dataclass_init_missing)
  then show ?thesis by (simp add: init_from_series_def)
qed

lemma iterrows_length: "length (iterrows df) = nrows df"
  by (simp add: iterrows_def Let_def)

lemma dataclass_init_instance:
  assumes "is_instance k obj"
  shows "dataclass_init k (attrs obj) = Inr obj"
proof -
  have fst: "map fst (attrs obj) = fieldnames k" and k: "cls obj = k"
    using assms by (simp_all add: is_instance_def)
  have "bind_fields (attrs obj) (map fst (attrs obj)) = Some (attrs obj)"
    by (rule bind_fields_self) (simp add: fst distinct_fieldnames)
  then have "bind_fields (attrs obj) (fieldnames k) = Some (attrs obj)" by (simp only: fst)
  moreover have "list_all (\<lambda>key. key \<in> set (fieldnames k)) (map fst (attrs obj))"
    by (simp only: fst) (simp add: list_all_iff)
  ultimately show ?thesis using k by (simp add: dataclass_init_def)
qed

lemma init_all_instances:
  assumes "\<forall>obj\<in>set objs. is_instance k obj"
  shows "init_all k (fieldnames k) (map (\<lambda>obj. map snd (attrs obj)) objs) = Inr objs"
  using assms
proof (induction objs)
  case Nil
  then show ?case by simp
next
  case (Cons obj objs)
  then have inst: "is_instance k obj" by simp
  then have "zip (fieldnames k) (map snd (attrs obj)) = attrs obj"
    by (simp add: is_instance_def zip_map_fst_snd [symmetric] del: zip_map_fst_snd)
       (metis zip_map_fst_snd)
  then have "init_from_series k (fieldnames k) (map snd (attrs obj)) = Inr obj"
    using dataclass_init_instance [OF inst] by (simp add: init_from_series_def distinct_fieldnames)
  with Cons show ?case by simp
qed

lemma union_keys_known: "set keys \<subseteq> set acc \<Longrightarrow> union_keys acc keys = acc"
  by (induction keys arbitrary: acc) auto

lemma union_keys_append:
  "distinct keys \<Longrightarrow> set keys \<inter> set acc = {} \<Longrightarrow> union_keys acc keys = acc @ keys"
  by (induction keys arbitrary: acc) auto

lemma foldl_union_keys_same:
  "\<forall>ks\<in>set kss. ks = names \<Longrightarrow> foldl union_keys names kss = names"
  by (induction kss) (simp_all add: union_keys_known)

lemma columns_of_instances:
  assumes "\<forall>obj\<in>set objs. is_instance k obj" and "objs \<noteq> []"
  shows "foldl union_keys [] (map (map fst) (map attrs objs)) = fieldnames k"
proof -
  from assms(2) obtain obj objs' where objs: "objs = obj # objs'" by (cases objs) auto
  have first: "map fst (attrs obj) = fieldnames k"
    using assms(1) objs by (simp add: is_instance_def)
  have "union_keys [] (fieldnames k) = fieldnames k"
    using union_keys_append [of "fieldnames k" "[]"] by (simp add: distinct_fieldnames)
  moreover have "foldl union_keys (fieldnames k) (map (map fst) (map attrs objs')) = fieldnames k"
    using assms(1) objs by (intro foldl_union_keys_same) (auto simp: is_instance_def)
  ultimately show ?thesis using objs first by simp
qed


lemma deployment_pair_table:
  "to_pandas Deployment [deployment_delay, deployment_no_delay] = Inr deployment_pair_frame"
  by (simp add: to_pandas_def DataFrame_of_dicts_def deployment_delay_def deployment_no_delay_def
        deployment_attrs_def maybe_convert_objects_def Seen_init_def saw_int_def Let_def
        double_overflow_def float_of_int_exact deployment_pair_frame_def Deployment_fields_def)


text \<open>
  Claim C8, as the code has it. The package has no \<open>FormatError\<close>. For every record
  kind, when the table lacks a column for a declared field (each is a required
  argument of \<open>__init__\<close>, the \<open>Optional\<close> ones too), \<open>from_pandas\<close> raises the
  \<open>TypeError\<close> of the dataclass's \<open>__init__\<close> if the table has a row, and returns the
  empty list if it has none.
\<close>

theorem from_pandas_missing_column:
  assumes "f \<in> set (fieldnames k)" and "f \<notin> set (columns df)"
  shows "from_pandas k df = (if nrows df = 0 then Inr [] else Inl TypeError)"
proof (cases "iterrows df")
  case Nil
  then have "nrows df = 0" using iterrows_length [of df] by simp
  with Nil show ?thesis by (simp add: from_pandas_def)
next
  case (Cons vs rows)
  then have "nrows df \<noteq> 0" using iterrows_length [of df] by auto
  moreover have "init_from_series k (columns df) vs = Inl TypeError"
    using assms by (rule init_from_series_missing)
  ultimately show ?thesis using Cons by (simp add: from_pandas_def)
qed

theorem from_pandas_missing_column_witness:
  "''mediaID'' \<in> set (fieldnames Media) \<and> ''mediaID'' \<notin> set (columns frame_one_row)
   \<and> ''mediaID'' \<notin> set (columns frame_no_row)
   \<and> from_pandas Media frame_one_row = Inl TypeError
   \<and> from_pandas Media frame_no_row = Inr []"
proof -
  have a: "''mediaID'' \<in> set (fieldnames Media)" by (simp add: media_fieldnames)
  have b: "''mediaID'' \<notin> set (columns frame_one_row)" by (simp add: frame_one_row_def)
  have c: "''mediaID'' \<notin> set (columns frame_no_row)" by (simp add: frame_no_row_def)
  have "from_pandas Media frame_one_row = Inl TypeError"
    using from_pandas_missing_column [OF a b] by (simp add: frame_one_row_def)
  moreover have "from_pandas Media frame_no_row = Inr []"
    using from_pandas_missing_column [OF a c] by (simp add: frame_no_row_def)
  ultimately show ?thesis using a b c by (intro conjI)
qed

text \<open>The claim as stated fails on a table with the one column \<open>deploymentID\<close>: with
  a row the error is a \<open>TypeError\<close>, without rows there is no error.\<close>

theorem from_pandas_FormatError_counterexample:
  "columns frame_one_row = [''deploymentID''] \<and> nrows frame_one_row = 1
   \<and> from_pandas Media frame_one_row = Inl TypeError
   \<and> from_pandas Media frame_one_row \<noteq> Inl FormatError
   \<and> columns frame_no_row = [''deploymentID''] \<and> nrows frame_no_row = 0
   \<and> from_pandas Media frame_no_row = Inr []"
  by (simp add: frame_one_row_def frame_no_row_def from_pandas_def iterrows_def common_dtype_def
        astype_def init_from_series_def dataclass_init_def media_fieldnames)


subsection \<open>Facts about reading what was written\<close>

lemma file_lines_nonempty: "s \<noteq> [] \<Longrightarrow> file_lines s \<noteq> []"
  by (cases s) (auto split: list.splits)

lemma iternext_char:
  assumes "c \<noteq> LF" and "s \<noteq> []" and "parse_process_char r (Some c) = Inr r1"
  shows "Reader_iternext r (file_lines (c # s)) = Reader_iternext r1 (file_lines s)"
proof -
  from assms(2) obtain l ls where ls: "file_lines s = l # ls"
    using file_lines_nonempty by (cases "file_lines s") auto
  have "process_line r (c # l) = process_line r1 l"
    using assms(3) by (simp add: process_line_def)
  then show ?thesis using assms(1) ls by simp
qed

lemma iternext_newline:
  assumes "parse_process_char r (Some LF) = Inr r1" and "parse_process_char r1 None = Inr r2"
  shows "Reader_iternext r (file_lines (LF # s)) =
         (if state r2 = START_RECORD then Inr (Some (rfields r2, file_lines s))
          else Reader_iternext r2 (file_lines s))"
  using assms by (simp add: process_line_def)

lemmas step_defs = parse_process_char_def start_field_def parse_add_char_def parse_save_field_def
  set_state_def is_newline_def special_def

lemma step_start_add:
  assumes "st = START_RECORD \<or> st = START_FIELD" and "\<not> special c"
  shows "parse_process_char \<lparr>state = st, field = [], rfields = fs\<rparr> (Some c) =
         Inr \<lparr>state = IN_FIELD, field = [c], rfields = fs\<rparr>"
  using assms by (auto simp: step_defs field_limit_def)

lemma step_start_quote:
  assumes "st = START_RECORD \<or> st = START_FIELD"
  shows "parse_process_char \<lparr>state = st, field = [], rfields = fs\<rparr> (Some QUOTE) =
         Inr \<lparr>state = IN_QUOTED_FIELD, field = [], rfields = fs\<rparr>"
  using assms by (auto simp: step_defs)

lemma step_start_comma:
  assumes "st = START_RECORD \<or> st = START_FIELD"
  shows "parse_process_char \<lparr>state = st, field = [], rfields = fs\<rparr> (Some COMMA) =
         Inr \<lparr>state = START_FIELD, field = [], rfields = fs @ [[]]\<rparr>"
  using assms by (auto simp: step_defs)

lemma step_start_newline:
  "parse_process_char \<lparr>state = START_FIELD, field = [], rfields = fs\<rparr> (Some LF) =
         Inr \<lparr>state = EAT_CRNL, field = [], rfields = fs @ [[]]\<rparr>"
  by (simp add: step_defs)

lemma step_in_field_add:
  assumes "\<not> special c" and "length f < field_limit"
  shows "parse_process_char \<lparr>state = IN_FIELD, field = f, rfields = fs\<rparr> (Some c) =
         Inr \<lparr>state = IN_FIELD, field = f @ [c], rfields = fs\<rparr>"
  using assms by (auto simp: step_defs)

lemma step_in_field_comma:
  "parse_process_char \<lparr>state = IN_FIELD, field = f, rfields = fs\<rparr> (Some COMMA) =
         Inr \<lparr>state = START_FIELD, field = [], rfields = fs @ [f]\<rparr>"
  by (simp add: step_defs)

lemma step_in_field_newline:
  "parse_process_char \<lparr>state = IN_FIELD, field = f, rfields = fs\<rparr> (Some LF) =
         Inr \<lparr>state = EAT_CRNL, field = [], rfields = fs @ [f]\<rparr>"
  by (simp add: step_defs)

lemma step_eat_eol:
  "parse_process_char \<lparr>state = EAT_CRNL, field = f, rfields = fs\<rparr> None =
         Inr \<lparr>state = START_RECORD, field = f, rfields = fs\<rparr>"
  by (simp add: step_defs)

lemma step_quoted_add:
  assumes "c \<noteq> QUOTE" and "length f < field_limit"
  shows "parse_process_char \<lparr>state = IN_QUOTED_FIELD, field = f, rfields = fs\<rparr> (Some c) =
         Inr \<lparr>state = IN_QUOTED_FIELD, field = f @ [c], rfields = fs\<rparr>"
  using assms by (auto simp: step_defs)

lemma step_quoted_eol:
  "parse_process_char \<lparr>state = IN_QUOTED_FIELD, field = f, rfields = fs\<rparr> None =
         Inr \<lparr>state = IN_QUOTED_FIELD, field = f, rfields = fs\<rparr>"
  by (simp add: step_defs)

lemma step_quoted_quote:
  "parse_process_char \<lparr>state = IN_QUOTED_FIELD, field = f, rfields = fs\<rparr> (Some QUOTE) =
         Inr \<lparr>state = QUOTE_IN_QUOTED_FIELD, field = f, rfields = fs\<rparr>"
  by (simp add: step_defs)

lemma step_quote_quote:
  assumes "length f < field_limit"
  shows "parse_process_char \<lparr>state = QUOTE_IN_QUOTED_FIELD, field = f, rfields = fs\<rparr> (Some QUOTE) =
         Inr \<lparr>state = IN_QUOTED_FIELD, field = f @ [QUOTE], rfields = fs\<rparr>"
  using assms by (auto simp: step_defs)

lemma step_quote_comma:
  "parse_process_char \<lparr>state = QUOTE_IN_QUOTED_FIELD, field = f, rfields = fs\<rparr> (Some COMMA) =
         Inr \<lparr>state = START_FIELD, field = [], rfields = fs @ [f]\<rparr>"
  by (simp add: step_defs)

lemma step_quote_newline:
  "parse_process_char \<lparr>state = QUOTE_IN_QUOTED_FIELD, field = f, rfields = fs\<rparr> (Some LF) =
         Inr \<lparr>state = EAT_CRNL, field = [], rfields = fs @ [f]\<rparr>"
  by (simp add: step_defs)


text \<open>Unquoted characters, one by one.\<close>

lemma iternext_plain:
  assumes "\<not> list_ex special u" and "length (f @ u) \<le> field_limit" and "s \<noteq> []"
  shows "Reader_iternext \<lparr>state = IN_FIELD, field = f, rfields = fs\<rparr> (file_lines (u @ s)) =
         Reader_iternext \<lparr>state = IN_FIELD, field = f @ u, rfields = fs\<rparr> (file_lines s)"
  using assms
proof (induction u arbitrary: f)
  case Nil
  then show ?case by simp
next
  case (Cons c u)
  have c: "\<not> special c" and lf: "c \<noteq> LF" using Cons.prems(1) by (auto simp: special_def)
  have len: "length f < field_limit" using Cons.prems(2) by simp
  have "Reader_iternext \<lparr>state = IN_FIELD, field = f, rfields = fs\<rparr> (file_lines (c # (u @ s))) =
        Reader_iternext \<lparr>state = IN_FIELD, field = f @ [c], rfields = fs\<rparr> (file_lines (u @ s))"
    using lf Cons.prems(3) by (intro iternext_char step_in_field_add c len) simp_all
  also have "\<dots> = Reader_iternext \<lparr>state = IN_FIELD, field = (f @ [c]) @ u, rfields = fs\<rparr> (file_lines s)"
    using Cons.prems by (intro Cons.IH) simp_all
  finally show ?case by simp
qed

text \<open>The characters of a quoted field, the quotes doubled.\<close>

lemma iternext_quoted:
  assumes "length (f @ cell) \<le> field_limit" and "s \<noteq> []"
  shows "Reader_iternext \<lparr>state = IN_QUOTED_FIELD, field = f, rfields = fs\<rparr>
           (file_lines (double_quotes cell @ s)) =
         Reader_iternext \<lparr>state = IN_QUOTED_FIELD, field = f @ cell, rfields = fs\<rparr> (file_lines s)"
  using assms
proof (induction cell arbitrary: f)
  case Nil
  then show ?case by simp
next
  case (Cons c cell)
  have len: "length f < field_limit" using Cons.prems(1) by simp
  have rest: "double_quotes cell @ s \<noteq> []" using Cons.prems(2) by simp
  have IH: "Reader_iternext \<lparr>state = IN_QUOTED_FIELD, field = f @ [c], rfields = fs\<rparr>
           (file_lines (double_quotes cell @ s)) =
         Reader_iternext \<lparr>state = IN_QUOTED_FIELD, field = (f @ [c]) @ cell, rfields = fs\<rparr> (file_lines s)"
    using Cons.prems by (intro Cons.IH) simp_all
  consider (quote) "c = QUOTE" | (newline) "c = LF" | (other) "c \<noteq> QUOTE" "c \<noteq> LF"
    by blast
  then show ?case
  proof cases
    case quote
    have "Reader_iternext \<lparr>state = IN_QUOTED_FIELD, field = f, rfields = fs\<rparr>
            (file_lines (QUOTE # QUOTE # double_quotes cell @ s)) =
          Reader_iternext \<lparr>state = QUOTE_IN_QUOTED_FIELD, field = f, rfields = fs\<rparr>
            (file_lines (QUOTE # double_quotes cell @ s))"
      by (intro iternext_char step_quoted_quote) simp_all
    also have "\<dots> = Reader_iternext \<lparr>state = IN_QUOTED_FIELD, field = f @ [QUOTE], rfields = fs\<rparr>
            (file_lines (double_quotes cell @ s))"
      using rest len by (intro iternext_char step_quote_quote) simp_all
    finally show ?thesis using IH quote by simp
  next
    case newline
    have "Reader_iternext \<lparr>state = IN_QUOTED_FIELD, field = f, rfields = fs\<rparr>
            (file_lines (LF # double_quotes cell @ s)) =
          Reader_iternext \<lparr>state = IN_QUOTED_FIELD, field = f @ [LF], rfields = fs\<rparr>
            (file_lines (double_quotes cell @ s))"
      using iternext_newline [of "\<lparr>state = IN_QUOTED_FIELD, field = f, rfields = fs\<rparr>"
          "\<lparr>state = IN_QUOTED_FIELD, field = f @ [LF], rfields = fs\<rparr>"
          "\<lparr>state = IN_QUOTED_FIELD, field = f @ [LF], rfields = fs\<rparr>" "double_quotes cell @ s"]
        len
      by (simp add: step_quoted_add step_quoted_eol)
    then show ?thesis using IH newline by simp
  next
    case other
    have "Reader_iternext \<lparr>state = IN_QUOTED_FIELD, field = f, rfields = fs\<rparr>
            (file_lines (c # double_quotes cell @ s)) =
          Reader_iternext \<lparr>state = IN_QUOTED_FIELD, field = f @ [c], rfields = fs\<rparr>
            (file_lines (double_quotes cell @ s))"
      using other rest len by (intro iternext_char step_quoted_add) simp_all
    then show ?thesis using IH other by simp
  qed
qed


text \<open>A written field and the delimiter after it.\<close>

lemma iternext_cell_comma:
  assumes st: "st = START_RECORD \<or> st = START_FIELD"
    and len: "length cell \<le> field_limit" and s: "s \<noteq> []"
  shows "Reader_iternext \<lparr>state = st, field = [], rfields = fs\<rparr>
           (file_lines (join_append cell @ COMMA # s)) =
         Reader_iternext \<lparr>state = START_FIELD, field = [], rfields = fs @ [cell]\<rparr> (file_lines s)"
proof (cases "list_ex special cell")
  case True
  have "Reader_iternext \<lparr>state = st, field = [], rfields = fs\<rparr>
          (file_lines (QUOTE # double_quotes cell @ QUOTE # COMMA # s)) =
        Reader_iternext \<lparr>state = IN_QUOTED_FIELD, field = [], rfields = fs\<rparr>
          (file_lines (double_quotes cell @ QUOTE # COMMA # s))"
    using st by (intro iternext_char step_start_quote) simp_all
  also have "\<dots> = Reader_iternext \<lparr>state = IN_QUOTED_FIELD, field = [] @ cell, rfields = fs\<rparr>
          (file_lines (QUOTE # COMMA # s))"
    using len by (intro iternext_quoted) simp_all
  also have "\<dots> = Reader_iternext \<lparr>state = QUOTE_IN_QUOTED_FIELD, field = cell, rfields = fs\<rparr>
          (file_lines (COMMA # s))"
    by (simp only: append_Nil) (intro iternext_char step_quoted_quote, simp_all)
  also have "\<dots> = Reader_iternext \<lparr>state = START_FIELD, field = [], rfields = fs @ [cell]\<rparr>
          (file_lines s)"
    using s by (intro iternext_char step_quote_comma) simp_all
  finally show ?thesis using True by (simp add: join_append_def)
next
  case False
  show ?thesis
  proof (cases cell)
    case Nil
    have "Reader_iternext \<lparr>state = st, field = [], rfields = fs\<rparr> (file_lines (COMMA # s)) =
          Reader_iternext \<lparr>state = START_FIELD, field = [], rfields = fs @ [[]]\<rparr> (file_lines s)"
      using st s by (intro iternext_char step_start_comma) simp_all
    then show ?thesis using Nil by (simp add: join_append_def)
  next
    case (Cons c u)
    have c: "\<not> special c" and u: "\<not> list_ex special u" using False Cons by simp_all
    have lf: "c \<noteq> LF" using c by (auto simp: special_def)
    have "Reader_iternext \<lparr>state = st, field = [], rfields = fs\<rparr>
            (file_lines (c # u @ COMMA # s)) =
          Reader_iternext \<lparr>state = IN_FIELD, field = [c], rfields = fs\<rparr>
            (file_lines (u @ COMMA # s))"
      using st c lf by (intro iternext_char step_start_add) simp_all
    also have "\<dots> = Reader_iternext \<lparr>state = IN_FIELD, field = [c] @ u, rfields = fs\<rparr>
            (file_lines (COMMA # s))"
      using u len Cons by (intro iternext_plain) simp_all
    also have "\<dots> = Reader_iternext \<lparr>state = START_FIELD, field = [], rfields = fs @ [[c] @ u]\<rparr>
            (file_lines s)"
      using s by (intro iternext_char step_in_field_comma) simp_all
    finally show ?thesis using False Cons by (simp add: join_append_def)
  qed
qed

lemma iternext_cell_newline:
  assumes len: "length cell \<le> field_limit"
  shows "Reader_iternext \<lparr>state = START_FIELD, field = [], rfields = fs\<rparr>
           (file_lines (join_append cell @ LF # s)) =
         Inr (Some (fs @ [cell], file_lines s))"
proof (cases "list_ex special cell")
  case True
  have "Reader_iternext \<lparr>state = START_FIELD, field = [], rfields = fs\<rparr>
          (file_lines (QUOTE # double_quotes cell @ QUOTE # LF # s)) =
        Reader_iternext \<lparr>state = IN_QUOTED_FIELD, field = [], rfields = fs\<rparr>
          (file_lines (double_quotes cell @ QUOTE # LF # s))"
    by (intro iternext_char step_start_quote) simp_all
  also have "\<dots> = Reader_iternext \<lparr>state = IN_QUOTED_FIELD, field = [] @ cell, rfields = fs\<rparr>
          (file_lines (QUOTE # LF # s))"
    using len by (intro iternext_quoted) simp_all
  also have "\<dots> = Reader_iternext \<lparr>state = QUOTE_IN_QUOTED_FIELD, field = cell, rfields = fs\<rparr>
          (file_lines (LF # s))"
    by (simp only: append_Nil) (intro iternext_char step_quoted_quote, simp_all)
  also have "\<dots> = Inr (Some (fs @ [cell], file_lines s))"
    using iternext_newline [OF step_quote_newline step_eat_eol, of cell fs s] by simp
  finally show ?thesis using True by (simp add: join_append_def)
next
  case False
  show ?thesis
  proof (cases cell)
    case Nil
    have "Reader_iternext \<lparr>state = START_FIELD, field = [], rfields = fs\<rparr> (file_lines (LF # s)) =
          Inr (Some (fs @ [[]], file_lines s))"
      using iternext_newline [OF step_start_newline step_eat_eol, of fs s] by simp
    then show ?thesis using Nil by (simp add: join_append_def)
  next
    case (Cons c u)
    have c: "\<not> special c" and u: "\<not> list_ex special u" using False Cons by simp_all
    have lf: "c \<noteq> LF" using c by (auto simp: special_def)
    have "Reader_iternext \<lparr>state = START_FIELD, field = [], rfields = fs\<rparr>
            (file_lines (c # u @ LF # s)) =
          Reader_iternext \<lparr>state = IN_FIELD, field = [c], rfields = fs\<rparr>
            (file_lines (u @ LF # s))"
      using c lf by (intro iternext_char step_start_add) simp_all
    also have "\<dots> = Reader_iternext \<lparr>state = IN_FIELD, field = [c] @ u, rfields = fs\<rparr>
            (file_lines (LF # s))"
      using u len Cons by (intro iternext_plain) simp_all
    also have "\<dots> = Inr (Some (fs @ [[c] @ u], file_lines s))"
      using iternext_newline [OF step_in_field_newline step_eat_eol, of "[c] @ u" fs s] by simp
    finally show ?thesis using False Cons by (simp add: join_append_def)
  qed
qed

text \<open>A written row.\<close>

lemma iternext_row:
  assumes "cells \<noteq> []" and "st = START_FIELD \<or> (st = START_RECORD \<and> 2 \<le> length cells)"
    and "\<forall>cell\<in>set cells. length cell \<le> field_limit"
  shows "Reader_iternext \<lparr>state = st, field = [], rfields = fs\<rparr>
           (file_lines (join_fields (map join_append cells) @ LF # s)) =
         Inr (Some (fs @ cells, file_lines s))"
  using assms
proof (induction cells arbitrary: st fs rule: join_fields.induct)
  case 1
  then show ?case by simp
next
  case (2 cell)
  then have "st = START_FIELD" by simp
  then show ?case using 2 by (simp add: iternext_cell_newline)
next
  case (3 cell cell' cells)
  let ?rest = "join_fields (map join_append (cell' # cells)) @ LF # s"
  have st: "st = START_RECORD \<or> st = START_FIELD" using "3.prems" by auto
  have "Reader_iternext \<lparr>state = st, field = [], rfields = fs\<rparr>
          (file_lines (join_append cell @ COMMA # ?rest)) =
        Reader_iternext \<lparr>state = START_FIELD, field = [], rfields = fs @ [cell]\<rparr> (file_lines ?rest)"
    using st "3.prems" by (intro iternext_cell_comma) simp_all
  also have "\<dots> = Inr (Some ((fs @ [cell]) @ cell' # cells, file_lines s))"
    using "3.prems" by (intro "3.IH") simp_all
  finally show ?case by simp
qed

lemma reader_next_row:
  assumes "2 \<le> length cells" and "\<forall>cell\<in>set cells. length cell \<le> field_limit"
  shows "reader_next (file_lines (join_fields (map join_append cells) @ LF # s)) =
         Inr (Some (cells, file_lines s))"
proof -
  have "cells \<noteq> []" using assms(1) by auto
  then show ?thesis
    using iternext_row [of cells START_RECORD "[]" s] assms
    by (simp add: reader_next_def parse_reset_def)
qed

lemma csv_rows_written:
  assumes "\<forall>cells\<in>set rows. 2 \<le> length cells \<and> (\<forall>cell\<in>set cells. length cell \<le> field_limit)"
  shows "csv_rows (file_lines (concat (map (\<lambda>cells. join_fields (map join_append cells) @ [LF]) rows)))
         = Inr rows"
  using assms
proof (induction rows)
  case Nil
  show ?case by (simp add: csv_rows.simps [of "[]"] reader_next_def parse_reset_def)
next
  case (Cons cells rows)
  let ?rest = "concat (map (\<lambda>cells. join_fields (map join_append cells) @ [LF]) rows)"
  have "reader_next (file_lines (join_fields (map join_append cells) @ LF # ?rest)) =
        Inr (Some (cells, file_lines ?rest))"
    using Cons.prems by (intro reader_next_row) simp_all
  moreover have "csv_rows (file_lines ?rest) = Inr rows"
    using Cons.prems by (intro Cons.IH) simp
  ultimately show ?case
    by (simp add: csv_rows.simps [of "file_lines (join_fields (map join_append cells) @ LF # ?rest)"])
qed


text \<open>Universal newlines on what \<open>to_csv\<close> wrote.\<close>

lemma universal_newlines_keep:
  "c \<noteq> CR \<Longrightarrow> universal_newlines (c # s) = c # universal_newlines s"
  by (cases s) simp_all

lemma universal_newlines_row:
  "CR \<notin> set s \<Longrightarrow> universal_newlines (s @ CR # LF # t) = s @ LF # universal_newlines t"
  by (induction s) (auto simp: universal_newlines_keep)

lemma universal_newlines_rows:
  assumes "\<forall>row\<in>set rows. CR \<notin> set (line row)"
  shows "universal_newlines (concat (map (\<lambda>row. line row @ [CR, LF]) rows)) =
         concat (map (\<lambda>row. line row @ [LF]) rows)"
  using assms by (induction rows) (simp_all add: universal_newlines_row)

lemma set_double_quotes: "set (double_quotes s) = set s"
  by (induction s) auto

lemma set_join_append: "set (join_append s) \<subseteq> insert QUOTE (set s)"
  by (auto simp: join_append_def set_double_quotes)

lemma set_join_fields: "set (join_fields fs) \<subseteq> insert COMMA (\<Union> (set ` set fs))"
  by (induction fs rule: join_fields.induct) auto

lemma no_CR_line:
  assumes "\<forall>cell\<in>set cells. CR \<notin> set cell"
  shows "CR \<notin> set (join_fields (map join_append cells))"
proof
  assume "CR \<in> set (join_fields (map join_append cells))"
  then have "CR \<in> \<Union> (set ` set (map join_append cells))"
    using set_join_fields [of "map join_append cells"] by auto
  then obtain cell where "cell \<in> set cells" and "CR \<in> set (join_append cell)" by auto
  then have "CR \<in> set cell" using set_join_append [of cell] by auto
  with \<open>cell \<in> set cells\<close> assms show False by simp
qed

lemma fieldnames_short: "\<forall>f\<in>set (fieldnames k). CR \<notin> set f \<and> length f \<le> field_limit"
  by (cases k)
    (simp_all add: fieldnames_def Deployment_fields_def Media_fields_def Observation_fields_def
       field_limit_def)

text \<open>The text \<open>to_csv\<close> writes, as rows of cells; and what \<open>from_csv\<close> reads from it.\<close>

lemma to_csv_rows:
  assumes "\<forall>obj\<in>set objs. is_instance k obj"
    and "\<forall>obj\<in>set objs. \<forall>(f, v)\<in>set (attrs obj). writable v"
  shows "to_csv float_repr k objs =
         Inr (concat (map (\<lambda>cells. join_fields (map join_append cells) @ [CR, LF])
                (fieldnames k # map (\<lambda>obj. map (\<lambda>(f, v). csv_field_text float_repr v) (attrs obj)) objs)))"
proof -
  have rows: "map (\<lambda>obj. writerow_text (map (csv_field_text float_repr) (map snd (attrs obj)))) objs =
             map (\<lambda>obj. join_fields (map join_append (map (\<lambda>(f, v). csv_field_text float_repr v) (attrs obj)))
                          @ [CR, LF]) objs"
  proof (rule map_cong [OF refl])
    fix obj assume "obj \<in> set objs"
    with assms(1) have "is_instance k obj" by blast
    then have "writerow_text (map (csv_field_text float_repr) (map snd (attrs obj))) =
               join_fields (map (\<lambda>(f, v). join_append (csv_field_text float_repr v)) (attrs obj))
               @ [CR, LF]"
      by (rule row_cells)
    moreover have "map (\<lambda>(f, v). join_append (csv_field_text float_repr v)) (attrs obj) =
                   map join_append (map (\<lambda>(f, v). csv_field_text float_repr v) (attrs obj))"
      by (simp add: comp_def case_prod_unfold)
    ultimately show "writerow_text (map (csv_field_text float_repr) (map snd (attrs obj))) =
               join_fields (map join_append (map (\<lambda>(f, v). csv_field_text float_repr v) (attrs obj)))
               @ [CR, LF]"
      by simp
  qed
  show ?thesis
    unfolding to_csv_text [OF assms, of float_repr] rows by (simp add: fieldnames_plain comp_def)
qed

lemma from_csv_written:
  assumes inst: "\<forall>obj\<in>set objs. is_instance k obj"
    and cells: "\<forall>obj\<in>set objs. \<forall>(f, v)\<in>set (attrs obj).
                  CR \<notin> set (csv_field_text float_repr v) \<and>
                  length (csv_field_text float_repr v) \<le> field_limit"
    and X: "to_csv float_repr k objs = Inr X"
  shows "from_csv k X =
         Inr (map (\<lambda>obj. \<lparr>cls = k,
                            attrs = zip (fieldnames k)
                                      (map PStr (map (\<lambda>(f, v). csv_field_text float_repr v) (attrs obj)))\<rparr>)
                  objs)"
proof -
  let ?row = "\<lambda>obj. map (\<lambda>(f, v). csv_field_text float_repr v) (attrs obj)"
  let ?rows = "fieldnames k # map ?row objs"
  let ?line = "\<lambda>cells. join_fields (map join_append cells)"
  have writable: "\<forall>obj\<in>set objs. \<forall>(f, v)\<in>set (attrs obj). writable v"
    using inst X by (rule to_csv_Inr_writable)
  have X': "X = concat (map (\<lambda>cells. ?line cells @ [CR, LF]) ?rows)"
    using to_csv_rows [OF inst writable, of float_repr] X by simp
  have ok: "2 \<le> length cells \<and> (\<forall>cell\<in>set cells. CR \<notin> set cell \<and> length cell \<le> field_limit)"
    if "cells \<in> set ?rows" for cells
  proof (cases "cells = fieldnames k")
    case True
    then show ?thesis using length_fieldnames [of k] fieldnames_short [of k] by simp
  next
    case False
    with that obtain obj where obj: "obj \<in> set objs" and c: "cells = ?row obj" by auto
    have "length (attrs obj) = length (fieldnames k)"
      using inst obj by (metis is_instance_def length_map)
    then have "2 \<le> length cells" using c length_fieldnames [of k] by simp
    moreover have "\<forall>cell\<in>set cells. CR \<notin> set cell \<and> length cell \<le> field_limit"
      using cells obj c by auto
    ultimately show ?thesis by simp
  qed
  have "universal_newlines X = concat (map (\<lambda>cells. ?line cells @ [LF]) ?rows)"
    unfolding X'
  proof (rule universal_newlines_rows)
    show "\<forall>row\<in>set ?rows. CR \<notin> set (?line row)"
      using ok by (intro ballI no_CR_line) blast
  qed
  moreover have "csv_rows (file_lines (concat (map (\<lambda>cells. ?line cells @ [LF]) ?rows))) = Inr ?rows"
    using ok by (intro csv_rows_written) blast
  ultimately have parsed: "csv_rows (file_read_lines X) = Inr (fieldnames k # map ?row objs)"
    by (simp add: file_read_lines_def)
  have "\<forall>row\<in>set (map ?row objs). length row = length (fieldnames k)"
  proof
    fix row assume "row \<in> set (map ?row objs)"
    then obtain obj where obj: "obj \<in> set objs" and r: "row = ?row obj" by auto
    have "length (attrs obj) = length (fieldnames k)"
      using inst obj by (metis is_instance_def length_map)
    with r show "length row = length (fieldnames k)" by simp
  qed
  with parsed have "from_csv k X =
      Inr (map (\<lambda>row. \<lparr>cls = k, attrs = zip (fieldnames k) (map PStr row)\<rparr>) (map ?row objs))"
    by (rule from_csv_exact_rows)
  then show ?thesis by (simp add: comp_def)
qed

lemma media_cr_instance: "is_instance Media media_cr" "is_instance Media media_cr_read"
  by (simp_all add: is_instance_def media_cr_def media_cr_read_def media_fieldnames)

lemma media_blank_written: "to_csv (\<lambda>x. []) Media [media_blank] = Inr media_blank_text"
  using to_csv_text [of "[media_blank]" Media "\<lambda>x. []"] media_blank_instance
  by (simp add: media_blank_def media_blank_text_def media_header_def media_fieldnames
        writerow_def writerow_text_def join_append_def special_def)

lemma media_cr_written: "to_csv (\<lambda>x. []) Media [media_cr] = Inr media_cr_text"
  using to_csv_text [of "[media_cr]" Media "\<lambda>x. []"] media_cr_instance
  by (simp add: media_cr_def media_cr_text_def media_header_def media_fieldnames
        writerow_def writerow_text_def join_append_def special_def)

lemma media_cr_written_again: "to_csv (\<lambda>x. []) Media [media_cr_read] = Inr media_cr_text_again"
  using to_csv_text [of "[media_cr_read]" Media "\<lambda>x. []"] media_cr_instance
  by (simp add: media_cr_read_def media_cr_text_again_def media_header_def media_fieldnames
        writerow_def writerow_text_def join_append_def special_def)

lemma media_cr_parsed:
  "csv_rows (file_read_lines media_cr_text) =
     Inr [fieldnames Media,
          [''m1'', ''d1'', [], ''t'', ''p'', ''True'', [], ''image/jpeg'', [], ''False'',
           [CHR ''a'', LF, CHR ''b'']]]"
  by (simp add: media_cr_text_def media_header_def file_read_lines_def csv_rows.simps
        reader_simps media_fieldnames)

lemma media_cr_read_back: "from_csv Media media_cr_text = Inr [media_cr_read]"
  using from_csv_exact_rows [OF media_cr_parsed]
  by (simp add: media_fieldnames media_cr_read_def)

subsection \<open>The round trip through text\<close>

text \<open>
  Claim C1, as the code has it. For every record kind and every sequence of objects
  of that kind, if no field is written with a carriage return in it and none is
  written longer than the \<open>csv\<close> module's field size limit (131072 characters), then
  the text \<open>X\<close> that \<open>to_csv\<close> writes is read by \<open>from_csv\<close> without error, into as many
  objects, and \<open>to_csv\<close> of those objects writes \<open>X\<close> again, character for character:
  the same header, the same cells and the same \<open>\r\n\<close> line ends.
\<close>

theorem to_csv_from_csv_to_csv:
  assumes inst: "\<forall>obj\<in>set objs. is_instance k obj"
    and cells: "\<forall>obj\<in>set objs. \<forall>(f, v)\<in>set (attrs obj).
                  CR \<notin> set (csv_field_text float_repr v) \<and>
                  length (csv_field_text float_repr v) \<le> field_limit"
    and X: "to_csv float_repr k objs = Inr X"
  shows "\<exists>objs'. from_csv k X = Inr objs' \<and> length objs' = length objs \<and>
                  to_csv float_repr k objs' = Inr X"
proof -
  let ?row = "\<lambda>obj. map (\<lambda>(f, v). csv_field_text float_repr v) (attrs obj)"
  let ?read = "\<lambda>obj. \<lparr>cls = k, attrs = zip (fieldnames k) (map PStr (?row obj))\<rparr>"
  let ?objs' = "map ?read objs"
  have read: "from_csv k X = Inr ?objs'"
    using inst cells X by (rule from_csv_written)
  have len: "length (attrs obj) = length (fieldnames k)" if "obj \<in> set objs" for obj
    using inst that by (metis is_instance_def length_map)
  have inst': "\<forall>obj\<in>set ?objs'. is_instance k obj"
    using len by (auto simp: is_instance_def)
  have same: "?row (?read obj) = ?row obj" if "obj \<in> set objs" for obj
  proof -
    have "map snd (zip (fieldnames k) (map PStr (?row obj))) = map PStr (?row obj)"
      using len [OF that] by simp
    then have "map (\<lambda>(f, v). csv_field_text float_repr v) (zip (fieldnames k) (map PStr (?row obj)))
               = map (csv_field_text float_repr) (map PStr (?row obj))"
      by (metis (no_types, lifting) case_prod_unfold map_map comp_def map_eq_conv)
    then show ?thesis by (simp add: comp_def)
  qed
  have eq: "map ?row ?objs' = map ?row objs"
    using same by (simp add: comp_def)
  have writable: "\<forall>obj\<in>set objs. \<forall>(f, v)\<in>set (attrs obj). writable v"
    using inst X by (rule to_csv_Inr_writable)
  have writable': "\<forall>obj\<in>set ?objs'. \<forall>(f, v)\<in>set (attrs obj). writable v"
    by (auto dest!: set_zip_rightD)
  have "to_csv float_repr k ?objs' = to_csv float_repr k objs"
    unfolding to_csv_rows [OF inst' writable', of float_repr]
      to_csv_rows [OF inst writable, of float_repr] eq
    by (rule refl)
  with read X show ?thesis by (intro exI [of _ ?objs']) simp
qed


theorem to_csv_from_csv_to_csv_witness:
  "is_instance Media media_blank
   \<and> to_csv (\<lambda>x. []) Media [media_blank] = Inr media_blank_text
   \<and> (\<exists>objs'. from_csv Media media_blank_text = Inr objs' \<and>
         length objs' = length [media_blank] \<and>
         to_csv (\<lambda>x. []) Media objs' = Inr media_blank_text)"
proof -
  have inst: "\<forall>obj\<in>set [media_blank]. is_instance Media obj"
    using media_blank_instance by simp
  have cells: "\<forall>obj\<in>set [media_blank]. \<forall>(f, v)\<in>set (attrs obj).
                  CR \<notin> set (csv_field_text (\<lambda>x. []) v) \<and>
                  length (csv_field_text (\<lambda>x. []) v) \<le> field_limit"
    by (simp add: media_blank_def field_limit_def)
  from to_csv_from_csv_to_csv [OF inst cells media_blank_written]
    media_blank_instance media_blank_written
  show ?thesis by (intro conjI)
qed

text \<open>The claim as stated fails on a \<open>Media\<close> object whose comment holds a carriage
  return: the field is written quoted, with the carriage return; the file is read
  with universal newlines, so the object read holds a line feed in its place; and the
  text written for that object differs from the text read.\<close>

theorem to_csv_from_csv_to_csv_counterexample:
  "is_instance Media media_cr
   \<and> to_csv (\<lambda>x. []) Media [media_cr] = Inr media_cr_text
   \<and> from_csv Media media_cr_text = Inr [media_cr_read]
   \<and> to_csv (\<lambda>x. []) Media [media_cr_read] = Inr media_cr_text_again
   \<and> media_cr_text_again \<noteq> media_cr_text"
proof -
  have "media_cr_text_again \<noteq> media_cr_text"
    by (simp add: media_cr_text_again_def media_cr_text_def)
  then show ?thesis
    using media_cr_instance(1) media_cr_written media_cr_read_back media_cr_written_again
    by (intro conjI)
qed



end
